theory Spec2Isabelle
  imports Main
begin

section \<open>The resolution registry (class PodResolutionsPlugin)\<close>

text \<open>
  A resolution object as the registry reads it. The field \<open>id\<close> of the source is
  \<open>res_id\<close> here. The automatic entry is built without a \<open>height\<close> property, so
  \<open>height\<close> is optional: \<open>None\<close> is JavaScript's \<open>undefined\<close>. Heights are pixel
  counts, hence integers. \<open>selectCallback\<close> is optional as well: calling a missing one is
  a \<open>TypeError\<close>. The callbacks the adapter installs assign \<open>hls.currentLevel\<close>; a
  callback is represented by the level it assigns.
\<close>

record resolution =
  res_id :: int
  height :: "int option"
  label :: string
  selected :: bool
  selectCallback :: "int option"

text \<open>What the registry does to the outside: events it triggers, callbacks it fires.\<close>

datatype effect = Trigger string | Fired int

text \<open>
  The plugin instance. \<open>currentSelection\<close> is a reference to a resolution object in the
  source (or \<open>null\<close>/\<open>undefined\<close>); the only thing ever read through it is its \<open>id\<close>,
  which nothing mutates, so the model keeps that id. \<open>autoResolutionChosenId\<close> starts as
  \<open>null\<close>.
\<close>

record registry =
  currentSelection :: "int option"
  resolutions :: "resolution list"
  autoResolutionChosenId :: "int option"
  effects :: "effect list"

definition new_registry :: registry where
  "new_registry =
     \<lparr>currentSelection = None, resolutions = [], autoResolutionChosenId = None, effects = []\<rparr>"

definition trigger :: "string \<Rightarrow> registry \<Rightarrow> registry" where
  "trigger ev s = s\<lparr>effects := effects s @ [Trigger ev]\<rparr>"

subsection \<open>Sorting\<close>

text \<open>
  The relational operators of the comparator, on possibly undefined numbers:
  \<open>undefined > n\<close> and \<open>n > undefined\<close> are false, \<open>===\<close> is equality (two undefined
  values are equal).
\<close>

definition js_gt :: "int option \<Rightarrow> int option \<Rightarrow> bool" where
  "js_gt a b = (case a of None \<Rightarrow> False | Some x \<Rightarrow> (case b of None \<Rightarrow> False | Some y \<Rightarrow> y < x))"

definition compareFn :: "resolution \<Rightarrow> resolution \<Rightarrow> int" where
  "compareFn a b =
     (if res_id a = - 1 then 1
      else if res_id b = - 1 then - 1
      else if js_gt (height a) (height b) then - 1
      else if height a = height b then 0
      else 1)"

text \<open>
  \<open>Array.prototype.sort\<close> with a comparator is a stable sort. The comparator above
  answers 1 for the automatic entry against itself and against another automatic entry
  either way round, and there the language standard leaves the order to the engine. The
  model is the insertion sort the engines apply to short arrays: the elements are taken
  in array order, and each one moves forward past the elements already placed that the
  comparator, called with the new element first, puts it strictly before.
  \<open>js_insert\<close> works on the elements placed so far in reverse order, the last one at
  the head.
\<close>

fun js_insert :: "('a \<Rightarrow> 'a \<Rightarrow> int) \<Rightarrow> 'a \<Rightarrow> 'a list \<Rightarrow> 'a list" where
  "js_insert cmp x [] = [x]"
| "js_insert cmp x (y # ys) = (if cmp x y < 0 then y # js_insert cmp x ys else x # y # ys)"

definition js_sort :: "('a \<Rightarrow> 'a \<Rightarrow> int) \<Rightarrow> 'a list \<Rightarrow> 'a list" where
  "js_sort cmp xs = rev (foldl (\<lambda>placed x. js_insert cmp x placed) [] xs)"

definition sort_resolutions :: "registry \<Rightarrow> registry" where
  "sort_resolutions s = s\<lparr>resolutions := js_sort compareFn (resolutions s)\<rparr>"

subsection \<open>Operations\<close>

definition getSelected :: "registry \<Rightarrow> resolution option" where
  "getSelected s = find (\<lambda>r. Some (res_id r) = autoResolutionChosenId s) (resolutions s)"

definition add :: "resolution list \<Rightarrow> registry \<Rightarrow> registry" where
  "add rs s =
     (let s1 = s\<lparr>resolutions := resolutions s @ rs\<rparr>;
          s2 = s1\<lparr>currentSelection := map_option res_id (getSelected s1)\<rparr>
      in trigger ''resolutions-added'' (sort_resolutions s2))"

definition remove_resolution :: "int \<Rightarrow> registry \<Rightarrow> registry" where
  "remove_resolution resolutionIndex s =
     trigger ''resolutions-removed''
       (s\<lparr>resolutions := filter (\<lambda>r. res_id r \<noteq> resolutionIndex) (resolutions s)\<rparr>)"

definition getResolutions :: "registry \<Rightarrow> resolution list" where
  "getResolutions s = resolutions s"

record select_options =
  opt_id :: int
  opt_autoResolutionChosenId :: int
  fireCallback :: bool

datatype js_error = TypeError

text \<open>
  The loop of \<open>select\<close> over the resolutions: it rewrites every \<open>selected\<close> flag, and at
  a match stores the entry as current selection and, when asked, calls its callback. The
  result is the rewritten list, the current selection and the effects so far; a missing
  callback ends the loop with the exception.
\<close>

fun select_loop ::
  "int \<Rightarrow> bool \<Rightarrow> resolution list \<Rightarrow> int option \<Rightarrow> effect list \<Rightarrow>
     js_error + (resolution list \<times> int option \<times> effect list)" where
  "select_loop i fire [] cur es = Inr ([], cur, es)"
| "select_loop i fire (r # rs) cur es =
     (let r' = r\<lparr>selected := (res_id r = i)\<rparr> in
      if selected r' then
        (if fire then
           (case selectCallback r' of
              None \<Rightarrow> Inl TypeError
            | Some c \<Rightarrow>
                (case select_loop i fire rs (Some (res_id r')) (es @ [Fired c]) of
                   Inl e \<Rightarrow> Inl e
                 | Inr (rs', cur', es') \<Rightarrow> Inr (r' # rs', cur', es')))
         else
           (case select_loop i fire rs (Some (res_id r')) es of
              Inl e \<Rightarrow> Inl e
            | Inr (rs', cur', es') \<Rightarrow> Inr (r' # rs', cur', es')))
      else
        (case select_loop i fire rs cur es of
           Inl e \<Rightarrow> Inl e
         | Inr (rs', cur', es') \<Rightarrow> Inr (r' # rs', cur', es')))"

text \<open>The guard at the head of \<open>select\<close>: both ids are the stored ones.\<close>

definition unchanged :: "select_options \<Rightarrow> registry \<Rightarrow> bool" where
  "unchanged options s =
     (currentSelection s = Some (opt_id options) \<and>
      autoResolutionChosenId s = Some (opt_autoResolutionChosenId options))"

definition select :: "select_options \<Rightarrow> registry \<Rightarrow> js_error + registry" where
  "select options s =
     (if unchanged options s then Inr s
      else
        (let s1 = s\<lparr>autoResolutionChosenId := Some (opt_autoResolutionChosenId options)\<rparr> in
         case select_loop (opt_id options) (fireCallback options) (resolutions s1)
                (currentSelection s1) (effects s1) of
           Inl e \<Rightarrow> Inl e
         | Inr (rs', cur', es') \<Rightarrow>
             Inr (trigger ''resolutions-changed''
                    (s1\<lparr>resolutions := rs', currentSelection := cur', effects := es'\<rparr>))))"

subsection \<open>Runs of add and remove\<close>

datatype registry_op = Add "resolution list" | Remove int

fun apply_op :: "registry \<Rightarrow> registry_op \<Rightarrow> registry" where
  "apply_op s (Add rs) = add rs s"
| "apply_op s (Remove i) = remove_resolution i s"

definition run_ops :: "registry_op list \<Rightarrow> registry \<Rightarrow> registry" where
  "run_ops ops s = foldl apply_op s ops"

text \<open>
  An entry is well formed when it is the automatic one or carries a numeric height; the
  order of the list is stated for such entries.
\<close>

definition has_height :: "resolution \<Rightarrow> bool" where
  "has_height r = (res_id r = - 1 \<or> height r \<noteq> None)"

fun op_has_heights :: "registry_op \<Rightarrow> bool" where
  "op_has_heights (Add rs) = list_all has_height rs"
| "op_has_heights (Remove i) = True"

text \<open>
  \<open>a\<close> may stand before \<open>b\<close>: \<open>b\<close> is automatic, or neither is and the height of \<open>a\<close>
  is at least that of \<open>b\<close>.
\<close>

definition before :: "resolution \<Rightarrow> resolution \<Rightarrow> bool" where
  "before a b =
     (res_id b = - 1 \<or>
      (res_id a \<noteq> - 1 \<and>
       (case height a of None \<Rightarrow> False
        | Some x \<Rightarrow> (case height b of None \<Rightarrow> False | Some y \<Rightarrow> y \<le> x))))"

definition descending_auto_last :: "resolution list \<Rightarrow> bool" where
  "descending_auto_last rs = sorted_wrt before rs"

section \<open>The source handler (class Html5Hlsjs)\<close>

subsection \<open>The streaming engine and the browser, as the handler uses them\<close>

text \<open>
  The streaming engine is a library outside the repository. The model keeps what the
  handler reads from it (\<open>levels\<close>, \<open>loadLevel\<close>), what it assigns (\<open>currentLevel\<close>),
  the listeners it registers with \<open>once\<close> for the fragment-loaded event, and the list of
  the methods it calls on it, in order. \<open>removeLevel\<close> deletes the level at the index
  given and, when that is the level being loaded, leaves \<open>loadLevel\<close> at -1 until the
  engine loads another level; the other methods are recorded as calls only. A level
  carries its \<open>id\<close> and its \<open>height\<close>.
\<close>

datatype ErrorTypes = NETWORK_ERROR | MEDIA_ERROR | KEY_SYSTEM_ERROR | MUX_ERROR | OTHER_ERROR

fun type_string :: "ErrorTypes \<Rightarrow> string" where
  "type_string NETWORK_ERROR = ''networkError''"
| "type_string MEDIA_ERROR = ''mediaError''"
| "type_string KEY_SYSTEM_ERROR = ''keySystemError''"
| "type_string MUX_ERROR = ''muxError''"
| "type_string OTHER_ERROR = ''otherError''"

record level =
  level_id :: int
  level_height :: int

datatype callback = RetryStartLoad | ResetNetworkErrorCount

datatype hls_call =
  RecoverMediaError | SwapAudioCodec | StartLoad | RemoveLevel int | Destroy

record hls_engine =
  levels :: "level list"
  loadLevel :: int
  currentLevel :: int
  destroyed :: bool
  fragLoadedOnce :: "callback list"
  calls :: "hls_call list"

text \<open>The payload of an engine error event, and the error object the handler builds.\<close>

record error_data =
  err_type :: ErrorTypes
  fatal :: bool
  details :: string

record error_obj =
  message :: string
  code :: "int option"

text \<open>
  The handler's state: its own fields, the engine, the registry of the player, the error
  accessor of the tech (\<open>None\<close> while it is the original one) and the events triggered on
  the tech, the timers set with \<open>setTimeout\<close> (remaining delay in milliseconds and
  callback, in the order they were set), the listeners on the video element, and
  \<open>navigator.onLine\<close>. Console output is left out.
\<close>

record provider =
  errorCounts :: "ErrorTypes \<Rightarrow> nat option"
  maxNetworkErrorRecovery :: nat
  isLive :: "bool option"
  hls :: hls_engine
  podResolutions :: registry
  tech_error :: "error_obj option"
  tech_events :: "string list"
  timers :: "(nat \<times> callback) list"
  videoListeners :: "string list"
  onLine :: bool

definition hls_called :: "hls_call \<Rightarrow> provider \<Rightarrow> provider" where
  "hls_called c s = s\<lparr>hls := (hls s)\<lparr>calls := calls (hls s) @ [c]\<rparr>\<rparr>"

definition hls_recoverMediaError :: "provider \<Rightarrow> provider" where
  "hls_recoverMediaError s = hls_called RecoverMediaError s"

definition hls_swapAudioCodec :: "provider \<Rightarrow> provider" where
  "hls_swapAudioCodec s = hls_called SwapAudioCodec s"

definition hls_startLoad :: "provider \<Rightarrow> provider" where
  "hls_startLoad s = hls_called StartLoad s"

definition hls_destroy :: "provider \<Rightarrow> provider" where
  "hls_destroy s = hls_called Destroy (s\<lparr>hls := (hls s)\<lparr>destroyed := True\<rparr>\<rparr>)"

definition delete_at :: "int \<Rightarrow> 'a list \<Rightarrow> 'a list" where
  "delete_at i xs =
     (if 0 \<le> i \<and> nat i < length xs then take (nat i) xs @ drop (Suc (nat i)) xs else xs)"

definition hls_removeLevel :: "int \<Rightarrow> provider \<Rightarrow> provider" where
  "hls_removeLevel i s =
     hls_called (RemoveLevel i)
       (s\<lparr>hls := (hls s)
          \<lparr>levels := delete_at i (levels (hls s)),
           loadLevel :=
             (if 0 \<le> i \<and> nat i < length (levels (hls s)) \<and> i = loadLevel (hls s) then - 1
              else loadLevel (hls s))\<rparr>\<rparr>)"

text \<open>The engine, choosing levels by itself, starts to load the level at index \<open>i\<close>.\<close>

definition engine_loads :: "int \<Rightarrow> provider \<Rightarrow> provider" where
  "engine_loads i s = s\<lparr>hls := (hls s)\<lparr>loadLevel := i\<rparr>\<rparr>"

definition hls_once_FRAG_LOADED :: "callback \<Rightarrow> provider \<Rightarrow> provider" where
  "hls_once_FRAG_LOADED c s = s\<lparr>hls := (hls s)\<lparr>fragLoadedOnce := fragLoadedOnce (hls s) @ [c]\<rparr>\<rparr>"

definition setTimeout :: "callback \<Rightarrow> nat \<Rightarrow> provider \<Rightarrow> provider" where
  "setTimeout c ms s = s\<lparr>timers := timers s @ [(ms, c)]\<rparr>"

definition tech_trigger :: "string \<Rightarrow> provider \<Rightarrow> provider" where
  "tech_trigger ev s = s\<lparr>tech_events := tech_events s @ [ev]\<rparr>"

subsection \<open>The deferred callbacks\<close>

text \<open>
  The two arrow functions of \<open>_handleNetworkError\<close>: the retry given to \<open>setTimeout\<close>
  and the counter reset given to \<open>hls.once\<close>.
\<close>

fun run_callback :: "provider \<Rightarrow> callback \<Rightarrow> provider" where
  "run_callback s RetryStartLoad = hls_startLoad s"
| "run_callback s ResetNetworkErrorCount =
     s\<lparr>errorCounts := (errorCounts s)(NETWORK_ERROR \<mapsto> 0)\<rparr>"

text \<open>
  Time passes by \<open>d\<close> milliseconds: the timers that are due run, in the order they were
  set (all are set with the same delay, so this is the order in which they are due), and
  the others come closer.
\<close>

definition elapse :: "nat \<Rightarrow> provider \<Rightarrow> provider" where
  "elapse d s =
     foldl run_callback
       (s\<lparr>timers := map (\<lambda>(t, c). (t - d, c)) (filter (\<lambda>(t, c). d < t) (timers s))\<rparr>)
       (map snd (filter (\<lambda>(t, c). t \<le> d) (timers s)))"

text \<open>The engine emits the fragment-loaded event: the \<open>once\<close> listeners run and are gone.\<close>

definition onFragLoaded :: "provider \<Rightarrow> provider" where
  "onFragLoaded s =
     foldl run_callback (s\<lparr>hls := (hls s)\<lparr>fragLoadedOnce := []\<rparr>\<rparr>) (fragLoadedOnce (hls s))"

text \<open>
  The listener for the level-loaded event, for the fields the recovery policy reads
  (\<open>details_live\<close> is \<open>data.details.live\<close>); the durations it also stores are not
  modelled.
\<close>

definition onLevelLoaded :: "bool \<Rightarrow> provider \<Rightarrow> provider" where
  "onLevelLoaded details_live s =
     (let s1 = s\<lparr>isLive := Some details_live\<rparr> in
      if isLive s1 = Some True then s1\<lparr>maxNetworkErrorRecovery := 30\<rparr> else s1)"

subsection \<open>The recovery policy\<close>

definition getHumanErrorMsg :: "error_obj \<Rightarrow> string" where
  "getHumanErrorMsg error = message error"

definition removeQuality :: "int \<Rightarrow> provider \<Rightarrow> provider" where
  "removeQuality index s =
     (let s1 = hls_removeLevel index s;
          s2 = s1\<lparr>podResolutions := remove_resolution index (podResolutions s1)\<rparr>
      in s2\<lparr>hls := (hls s2)\<lparr>currentLevel := - 1\<rparr>\<rparr>)"

definition handleUnrecovarableError :: "error_obj \<Rightarrow> provider \<Rightarrow> provider" where
  "handleUnrecovarableError error s =
     (if length (filter (\<lambda>l. level_id l > - 1) (levels (hls s))) > 1
      then removeQuality (loadLevel (hls s)) s
      else
        (let s1 = hls_destroy s;
             s2 = s1\<lparr>tech_error := Some (error\<lparr>message := getHumanErrorMsg error\<rparr>)\<rparr>
         in tech_trigger ''error'' s2))"

definition handleMediaError :: "error_obj \<Rightarrow> provider \<Rightarrow> provider" where
  "handleMediaError error s =
     (if errorCounts s MEDIA_ERROR = Some 1 then hls_recoverMediaError s
      else if errorCounts s MEDIA_ERROR = Some 2
        then hls_recoverMediaError (hls_swapAudioCodec s)
      else if (case errorCounts s MEDIA_ERROR of None \<Rightarrow> False | Some n \<Rightarrow> n > 2)
        then handleUnrecovarableError error s
      else s)"

definition handleNetworkError :: "error_obj \<Rightarrow> provider \<Rightarrow> provider" where
  "handleNetworkError error s =
     (if onLine s = False then s
      else if (case errorCounts s NETWORK_ERROR of
                 None \<Rightarrow> False
               | Some n \<Rightarrow> n \<le> maxNetworkErrorRecovery s)
        then hls_once_FRAG_LOADED ResetNetworkErrorCount (setTimeout RetryStartLoad 1000 s)
      else handleUnrecovarableError error s)"

text \<open>The running count of a classification: 0 while the dictionary has no entry.\<close>

definition occurrences :: "provider \<Rightarrow> ErrorTypes \<Rightarrow> nat" where
  "occurrences s ty = (case errorCounts s ty of None \<Rightarrow> 0 | Some n \<Rightarrow> n)"

definition error_message :: "error_data \<Rightarrow> string" where
  "error_message data =
     ''HLS.js error: '' @ type_string (err_type data) @ '' - fatal: '' @
     (if fatal data then ''true'' else ''false'') @ '' - '' @ details data"

definition count_error :: "ErrorTypes \<Rightarrow> provider \<Rightarrow> provider" where
  "count_error ty s =
     (case errorCounts s ty of
        None \<Rightarrow> s\<lparr>errorCounts := (errorCounts s)(ty \<mapsto> 1)\<rparr>
      | Some n \<Rightarrow>
          if n \<noteq> 0 then s\<lparr>errorCounts := (errorCounts s)(ty \<mapsto> n + 1)\<rparr>
          else s\<lparr>errorCounts := (errorCounts s)(ty \<mapsto> 1)\<rparr>)"

definition onError :: "error_data \<Rightarrow> provider \<Rightarrow> provider" where
  "onError data s =
     (let error = \<lparr>message = error_message data, code = None\<rparr>;
          s1 = count_error (err_type data) s
      in if err_type data = NETWORK_ERROR
           then handleNetworkError (error\<lparr>code := Some 2\<rparr>) s1
         else if fatal data \<and> err_type data = MEDIA_ERROR \<and>
                 details data \<noteq> ''manifestIncompatibleCodecsError''
           then handleMediaError (error\<lparr>code := Some 3\<rparr>) s1
         else if fatal data then handleUnrecovarableError error s1
         else s1)"

definition dispose :: "provider \<Rightarrow> provider" where
  "dispose s =
     hls_destroy
       (s\<lparr>videoListeners := removeAll ''error'' (removeAll ''play'' (videoListeners s))\<rparr>)"

text \<open>
  The handler as its constructor leaves it, for an engine holding the levels \<open>ls\<close> and
  loading the level \<open>ll\<close>, a registry \<open>reg\<close> and a browser that is online or not.
\<close>

definition new_provider :: "level list \<Rightarrow> int \<Rightarrow> registry \<Rightarrow> bool \<Rightarrow> provider" where
  "new_provider ls ll reg online =
     \<lparr>errorCounts = Map.empty, maxNetworkErrorRecovery = 5, isLive = None,
      hls = \<lparr>levels = ls, loadLevel = ll, currentLevel = - 1, destroyed = False,
             fragLoadedOnce = [], calls = []\<rparr>,
      podResolutions = reg, tech_error = None, tech_events = [], timers = [],
      videoListeners = [''error''], onLine = online\<rparr>"

definition errors :: "error_data list \<Rightarrow> provider \<Rightarrow> provider" where
  "errors ds s = foldl (\<lambda>s d. onError d s) s ds"

section \<open>Concrete registries and sessions\<close>

text \<open>Entries as the adapter builds them from a manifest with a 720p and a 1080p level.\<close>

definition r720 :: resolution where
  "r720 = \<lparr>res_id = 0, height = Some 720, label = ''720p'', selected = False,
            selectCallback = Some 0\<rparr>"

definition r1080 :: resolution where
  "r1080 = \<lparr>res_id = 1, height = Some 1080, label = ''1080p'', selected = False,
             selectCallback = Some 1\<rparr>"

definition rauto :: resolution where
  "rauto = \<lparr>res_id = - 1, height = None, label = ''Auto'', selected = True,
             selectCallback = Some (- 1)\<rparr>"

text \<open>
  The registry after \<open>select({id: -1, autoResolutionChosenId: 0})\<close> on a new one: the
  engine, in automatic mode, announced a switch to level 0 before any level was added.
\<close>

definition reg_auto0 :: registry where
  "reg_auto0 =
     \<lparr>currentSelection = None, resolutions = [], autoResolutionChosenId = Some 0,
      effects = [Trigger ''resolutions-changed'']\<rparr>"

text \<open>Then two entries are added, both flagged as selected by their creator.\<close>

definition reg_two :: registry where
  "reg_two = add [r720\<lparr>selected := True\<rparr>, rauto] reg_auto0"

text \<open>Or the two levels and the automatic entry are added, and level 0 is removed again.\<close>

definition reg_stale :: registry where
  "reg_stale = remove_resolution 0 (add [r720, r1080, rauto] reg_auto0)"

text \<open>Engine error events.\<close>

definition network_error :: error_data where
  "network_error = \<lparr>err_type = NETWORK_ERROR, fatal = True, details = ''fragLoadError''\<rparr>"

definition media_error :: error_data where
  "media_error = \<lparr>err_type = MEDIA_ERROR, fatal = True, details = ''bufferStalledError''\<rparr>"

definition stall_warning :: error_data where
  "stall_warning = \<lparr>err_type = MEDIA_ERROR, fatal = False, details = ''bufferStalledError''\<rparr>"

definition incompatible_codecs :: error_data where
  "incompatible_codecs =
     \<lparr>err_type = MEDIA_ERROR, fatal = True, details = ''manifestIncompatibleCodecsError''\<rparr>"

text \<open>
  Sessions: one quality level or two, loading level 0, with the registry filled from the
  manifest; the browser online or offline.
\<close>

definition one_level :: provider where
  "one_level =
     new_provider [\<lparr>level_id = 0, level_height = 720\<rparr>] 0
       (add [r720, rauto] new_registry) True"

definition two_levels :: provider where
  "two_levels =
     new_provider
       [\<lparr>level_id = 0, level_height = 720\<rparr>, \<lparr>level_id = 0, level_height = 1080\<rparr>] 0
       (add [r720, r1080, rauto] new_registry) True"

text \<open>
  A session with three levels, in the order of the manifest: 720p, 1080p, 480p. The
  registry holds them under their manifest indices 0, 1, 2, as the adapter adds them;
  level 0 is being loaded. And a fatal error that is neither a network nor a media error.
\<close>

definition r480 :: resolution where
  "r480 = \<lparr>res_id = 2, height = Some 480, label = ''480p'', selected = False,
            selectCallback = Some 2\<rparr>"

definition three_levels :: provider where
  "three_levels =
     new_provider
       [\<lparr>level_id = 0, level_height = 720\<rparr>, \<lparr>level_id = 0, level_height = 1080\<rparr>,
        \<lparr>level_id = 0, level_height = 480\<rparr>] 0
       (add [r720, r1080, r480, rauto] new_registry) True"

definition fatal_other :: error_data where
  "fatal_other = \<lparr>err_type = OTHER_ERROR, fatal = True, details = ''internalException''\<rparr>"

text \<open>
  The three-level session after one such error, and then either a second one at once or
  a second one after the engine has started to load the level now at index 0.
\<close>

definition fallen_back :: provider where
  "fallen_back = onError fatal_other three_levels"

definition fallen_back_again :: provider where
  "fallen_back_again = onError fatal_other fallen_back"

definition fallen_back_reloaded :: provider where
  "fallen_back_reloaded = onError fatal_other (engine_loads 0 fallen_back)"

definition offline :: provider where
  "offline = two_levels\<lparr>onLine := False\<rparr>"

text \<open>The session with two levels after one network error: a retry is pending.\<close>

definition retry_pending :: provider where
  "retry_pending = onError network_error two_levels"

text \<open>The condition under which the dispatcher hands an event to the media ladder.\<close>

definition media_ladder_event :: "error_data \<Rightarrow> bool" where
  "media_ladder_event d =
     (fatal d \<and> err_type d = MEDIA_ERROR \<and> details d \<noteq> ''manifestIncompatibleCodecsError'')"

section \<open>The order of the registry\<close>

lemma before_trans: "before a b \<Longrightarrow> before b c \<Longrightarrow> before a c"
  by (auto simp: before_def split: option.splits)

lemma compareFn_le_before:
  "has_height a \<Longrightarrow> has_height b \<Longrightarrow> compareFn a b \<le> 0 \<Longrightarrow> before a b"
  by (auto simp: compareFn_def before_def has_height_def js_gt_def split: if_splits option.splits)

lemma compareFn_ge_before:
  "has_height a \<Longrightarrow> has_height b \<Longrightarrow> \<not> compareFn a b < 0 \<Longrightarrow> before b a"
  by (auto simp: compareFn_def before_def has_height_def js_gt_def split: if_splits option.splits)

lemma set_js_insert: "set (js_insert cmp x ys) = insert x (set ys)"
  by (induction ys) auto

lemma set_js_placed:
  "set (foldl (\<lambda>placed x. js_insert cmp x placed) acc xs) = set acc \<union> set xs"
  by (induction xs arbitrary: acc) (auto simp: set_js_insert)

lemma set_js_sort: "set (js_sort cmp xs) = set xs"
  by (simp add: js_sort_def set_js_placed)

text \<open>The elements placed so far, last one first, are in the reverse of the order.\<close>

lemma sorted_js_insert:
  "sorted_wrt (\<lambda>a b. before b a) ys \<Longrightarrow> has_height x \<Longrightarrow> list_all has_height ys \<Longrightarrow>
   sorted_wrt (\<lambda>a b. before b a) (js_insert compareFn x ys)"
proof (induction ys)
  case Nil
  then show ?case by simp
next
  case (Cons y ys)
  show ?case
  proof (cases "compareFn x y < 0")
    case True
    with Cons.prems have xy: "before x y"
      by (simp add: compareFn_le_before)
    from Cons.prems have "sorted_wrt (\<lambda>a b. before b a) (js_insert compareFn x ys)"
      by (simp add: Cons.IH)
    with True xy Cons.prems(1) show ?thesis
      by (simp add: set_js_insert)
  next
    case False
    with Cons.prems have yx: "before y x"
      by (simp add: compareFn_ge_before)
    from Cons.prems(1) have "\<forall>z\<in>set ys. before z y" by simp
    with yx have "\<forall>z\<in>set ys. before z x"
      by (blast intro: before_trans)
    with False yx Cons.prems(1) show ?thesis by simp
  qed
qed

lemma sorted_js_placed:
  "sorted_wrt (\<lambda>a b. before b a) acc \<Longrightarrow> list_all has_height acc \<Longrightarrow>
   list_all has_height xs \<Longrightarrow>
   sorted_wrt (\<lambda>a b. before b a) (foldl (\<lambda>placed x. js_insert compareFn x placed) acc xs)"
proof (induction xs arbitrary: acc)
  case Nil
  then show ?case by simp
next
  case (Cons x xs)
  from Cons.prems have "sorted_wrt (\<lambda>a b. before b a) (js_insert compareFn x acc)"
    by (simp add: sorted_js_insert)
  moreover from Cons.prems have "list_all has_height (js_insert compareFn x acc)"
    by (simp add: list_all_iff set_js_insert)
  ultimately show ?case
    using Cons.prems(3) by (simp add: Cons.IH)
qed

lemma sorted_js_sort:
  "list_all has_height xs \<Longrightarrow> sorted_wrt before (js_sort compareFn xs)"
  using sorted_js_placed [of "[]" xs] by (simp add: js_sort_def sorted_wrt_rev)

lemma add_descending:
  "list_all has_height (resolutions s) \<Longrightarrow> list_all has_height rs \<Longrightarrow>
   descending_auto_last (resolutions (add rs s)) \<and> list_all has_height (resolutions (add rs s))"
proof -
  assume "list_all has_height (resolutions s)" and "list_all has_height rs"
  then have all: "list_all has_height (resolutions s @ rs)" by simp
  then have "sorted_wrt before (js_sort compareFn (resolutions s @ rs))"
    by (rule sorted_js_sort)
  moreover from all have "list_all has_height (js_sort compareFn (resolutions s @ rs))"
    by (simp add: list_all_iff set_js_sort)
  ultimately show ?thesis
    by (simp add: add_def Let_def trigger_def sort_resolutions_def descending_auto_last_def)
qed

lemma remove_descending:
  "descending_auto_last (resolutions s) \<Longrightarrow> list_all has_height (resolutions s) \<Longrightarrow>
   descending_auto_last (resolutions (remove_resolution i s)) \<and>
   list_all has_height (resolutions (remove_resolution i s))"
  by (simp add: remove_resolution_def trigger_def descending_auto_last_def sorted_wrt_filter
      list_all_iff)

lemma apply_op_descending:
  "descending_auto_last (resolutions s) \<Longrightarrow> list_all has_height (resolutions s) \<Longrightarrow>
   op_has_heights x \<Longrightarrow>
   descending_auto_last (resolutions (apply_op s x)) \<and>
   list_all has_height (resolutions (apply_op s x))"
  by (cases x) (simp_all add: add_descending remove_descending)

lemma run_ops_descending:
  "descending_auto_last (resolutions s) \<Longrightarrow> list_all has_height (resolutions s) \<Longrightarrow>
   list_all op_has_heights ops \<Longrightarrow>
   descending_auto_last (resolutions (run_ops ops s)) \<and>
   list_all has_height (resolutions (run_ops ops s))"
  unfolding run_ops_def
proof (induction ops arbitrary: s)
  case Nil
  then show ?case by simp
next
  case (Cons x ops)
  from Cons.prems have "descending_auto_last (resolutions (apply_op s x)) \<and>
      list_all has_height (resolutions (apply_op s x))"
    by (simp add: apply_op_descending)
  with Cons.prems(3) show ?case
    by (simp add: Cons.IH)
qed

text \<open>
  Claim C1. Whatever sequence of \<open>add\<close> and \<open>remove\<close> calls a new registry receives,
  with every non-automatic entry carrying a numeric height, its list is afterwards in
  descending order of height with the automatic entries (id -1) last. In particular,
  adding an entry with id 0 and height 720 and one with id 1 and height 1080, and then
  an entry with id -1, leaves the list in the order id 1, id 0, id -1.
\<close>

theorem registry_sorted_descending_auto_last:
  "(\<forall>ops. list_all op_has_heights ops \<longrightarrow>
      descending_auto_last (resolutions (run_ops ops new_registry))) \<and>
   (\<forall>a b c. res_id a = 0 \<and> height a = Some 720 \<and> res_id b = 1 \<and> height b = Some 1080 \<and>
      res_id c = - 1 \<longrightarrow>
      resolutions (run_ops [Add [a, b], Add [c]] new_registry) = [b, a, c])"
proof (intro conjI allI impI)
  fix ops
  assume "list_all op_has_heights ops"
  moreover have "descending_auto_last (resolutions new_registry)"
    and "list_all has_height (resolutions new_registry)"
    by (simp_all add: new_registry_def descending_auto_last_def)
  ultimately show "descending_auto_last (resolutions (run_ops ops new_registry))"
    by (simp add: run_ops_descending)
next
  fix a b c :: resolution
  assume "res_id a = 0 \<and> height a = Some 720 \<and> res_id b = 1 \<and> height b = Some 1080 \<and>
    res_id c = - 1"
  then show "resolutions (run_ops [Add [a, b], Add [c]] new_registry) = [b, a, c]"
    by (simp add: run_ops_def add_def Let_def trigger_def sort_resolutions_def js_sort_def
        new_registry_def compareFn_def js_gt_def)
qed

theorem registry_sorted_descending_auto_last_witness:
  "list_all op_has_heights [Add [rauto, r720, r1080], Add [rauto, r720], Remove 1] \<and>
   descending_auto_last
     (resolutions (run_ops [Add [rauto, r720, r1080], Add [rauto, r720], Remove 1] new_registry)) \<and>
   map res_id
     (resolutions (run_ops [Add [rauto, r720, r1080], Add [rauto, r720], Remove 1] new_registry)) =
     [0, 0, - 1, - 1] \<and>
   resolutions (run_ops [Add [r720, r1080], Add [rauto]] new_registry) = [r1080, r720, rauto]"
proof -
  have h: "list_all op_has_heights [Add [rauto, r720, r1080], Add [rauto, r720], Remove 1]"
    by (simp add: has_height_def r720_def r1080_def rauto_def)
  have ids: "map res_id
     (resolutions (run_ops [Add [rauto, r720, r1080], Add [rauto, r720], Remove 1] new_registry)) =
     [0, 0, - 1, - 1]"
    by (simp add: run_ops_def add_def remove_resolution_def Let_def trigger_def
        sort_resolutions_def js_sort_def new_registry_def compareFn_def js_gt_def r720_def r1080_def
        rauto_def)
  have e: "res_id r720 = 0 \<and> height r720 = Some 720 \<and> res_id r1080 = 1 \<and>
    height r1080 = Some 1080 \<and> res_id rauto = - 1"
    by (simp add: r720_def r1080_def rauto_def)
  from registry_sorted_descending_auto_last h ids e show ?thesis
    by blast
qed

section \<open>Selection\<close>

lemma select_loop_list:
  "select_loop i fire rs cur es = Inr (rs', cur', es') \<Longrightarrow>
   rs' = map (\<lambda>r. r\<lparr>selected := (res_id r = i)\<rparr>) rs"
proof (induction rs arbitrary: cur es rs' cur' es')
  case Nil
  then show ?case by simp
next
  case (Cons r rs)
  from Cons.prems obtain cur0 es0 a
    where rec: "select_loop i fire rs cur0 es0 = Inr (a, cur', es')"
      and hd: "rs' = r\<lparr>selected := (res_id r = i)\<rparr> # a"
    by (auto simp: Let_def split: if_splits option.splits sum.splits)
  from rec have "a = map (\<lambda>r. r\<lparr>selected := (res_id r = i)\<rparr>) rs"
    by (rule Cons.IH)
  with hd show ?case by simp
qed

lemma select_loop_no_match:
  "i \<notin> res_id ` set rs \<Longrightarrow>
   select_loop i fire rs cur es = Inr (map (\<lambda>r. r\<lparr>selected := False\<rparr>) rs, cur, es)"
  by (induction rs) (auto simp: Let_def)

lemma distinct_ids_one_match:
  "distinct (map res_id rs) \<Longrightarrow> length (filter (\<lambda>r. res_id r = i) rs) \<le> 1"
proof (induction rs)
  case Nil
  then show ?case by simp
next
  case (Cons r rs)
  show ?case
  proof (cases "res_id r = i")
    case True
    with Cons.prems have "i \<notin> res_id ` set rs" by auto
    then have "filter (\<lambda>r. res_id r = i) rs = []"
      by (auto simp: filter_empty_conv)
    with True show ?thesis by simp
  next
    case False
    with Cons show ?thesis by simp
  qed
qed

lemma select_result:
  "\<not> unchanged options s \<Longrightarrow> select options s = Inr s' \<Longrightarrow>
   resolutions s' = map (\<lambda>r. r\<lparr>selected := (res_id r = opt_id options)\<rparr>) (resolutions s)"
  by (auto simp: select_def Let_def trigger_def split: sum.splits dest: select_loop_list)

text \<open>
  Claim C6. When \<open>select\<close> is called with the id of the current selection and the
  automatic-mode reference id that is stored, it returns at once and the registry is what
  it was: no event is triggered, no callback fired, no \<open>selected\<close> flag rewritten.
\<close>

theorem select_unchanged_returns:
  "currentSelection s = Some (opt_id options) \<Longrightarrow>
   autoResolutionChosenId s = Some (opt_autoResolutionChosenId options) \<Longrightarrow>
   select options s = Inr s"
  by (simp add: select_def unchanged_def)

theorem select_unchanged_returns_witness:
  "currentSelection reg_two = Some 0 \<and> autoResolutionChosenId reg_two = Some 0 \<and>
   select \<lparr>opt_id = 0, opt_autoResolutionChosenId = 0, fireCallback = True\<rparr> reg_two =
     Inr reg_two"
proof -
  have c: "currentSelection reg_two = Some 0"
    and a: "autoResolutionChosenId reg_two = Some 0"
    by (simp_all add: reg_two_def reg_auto0_def add_def Let_def trigger_def
        sort_resolutions_def js_sort_def getSelected_def r720_def rauto_def)
  from c a
    select_unchanged_returns [of reg_two
      "\<lparr>opt_id = 0, opt_autoResolutionChosenId = 0, fireCallback = True\<rparr>"]
  show ?thesis by simp
qed

text \<open>
  Claim C7, as stated, fails: a call that returns at the guard leaves the flags as the
  callers of \<open>add\<close> set them. After a select for level 0 in automatic mode on a new
  registry, two entries with distinct ids are added, both flagged; the select for id 0
  with the same reference returns at once, and both entries are still flagged.
\<close>

theorem select_two_selected_counterexample:
  "select \<lparr>opt_id = - 1, opt_autoResolutionChosenId = 0, fireCallback = False\<rparr> new_registry =
     Inr reg_auto0 \<and>
   reg_two = add [r720\<lparr>selected := True\<rparr>, rauto] reg_auto0 \<and>
   distinct (map res_id (resolutions reg_two)) \<and>
   select \<lparr>opt_id = 0, opt_autoResolutionChosenId = 0, fireCallback = False\<rparr> reg_two =
     Inr reg_two \<and>
   map selected (resolutions reg_two) = [True, True]"
  by (simp add: select_def unchanged_def new_registry_def reg_auto0_def reg_two_def add_def
      Let_def trigger_def sort_resolutions_def js_sort_def getSelected_def compareFn_def js_gt_def
      r720_def rauto_def)

text \<open>
  Claim C7, amended. After a \<open>select\<close> call that passes the guard and returns, on a
  registry whose entries have distinct ids, at most one entry has \<open>selected = true\<close>.
\<close>

theorem select_at_most_one_selected:
  "distinct (map res_id (resolutions s)) \<Longrightarrow> \<not> unchanged options s \<Longrightarrow>
   select options s = Inr s' \<Longrightarrow>
   length (filter selected (resolutions s')) \<le> 1"
proof -
  assume d: "distinct (map res_id (resolutions s))"
    and u: "\<not> unchanged options s" and r: "select options s = Inr s'"
  from u r have "resolutions s' =
      map (\<lambda>r. r\<lparr>selected := (res_id r = opt_id options)\<rparr>) (resolutions s)"
    by (rule select_result)
  then have "length (filter selected (resolutions s')) =
      length (filter (\<lambda>r. res_id r = opt_id options) (resolutions s))"
    by (simp add: filter_map comp_def)
  with distinct_ids_one_match [OF d, of "opt_id options"] show ?thesis
    by simp
qed

theorem select_at_most_one_selected_witness:
  "distinct (map res_id (resolutions reg_two)) \<and>
   \<not> unchanged \<lparr>opt_id = - 1, opt_autoResolutionChosenId = 0, fireCallback = True\<rparr> reg_two \<and>
   select \<lparr>opt_id = - 1, opt_autoResolutionChosenId = 0, fireCallback = True\<rparr> reg_two =
     Inr (reg_two\<lparr>currentSelection := Some (- 1),
            resolutions := [r720, rauto],
            effects := effects reg_two @ [Fired (- 1), Trigger ''resolutions-changed'']\<rparr>) \<and>
   length (filter selected [r720, rauto]) \<le> 1"
proof -
  have d: "distinct (map res_id (resolutions reg_two))"
    by (simp add: reg_two_def reg_auto0_def add_def Let_def trigger_def sort_resolutions_def js_sort_def
        compareFn_def js_gt_def r720_def rauto_def)
  have u: "\<not> unchanged \<lparr>opt_id = - 1, opt_autoResolutionChosenId = 0, fireCallback = True\<rparr>
      reg_two"
    by (simp add: unchanged_def reg_two_def reg_auto0_def add_def Let_def trigger_def
        sort_resolutions_def js_sort_def getSelected_def r720_def rauto_def)
  have r: "select \<lparr>opt_id = - 1, opt_autoResolutionChosenId = 0, fireCallback = True\<rparr> reg_two =
     Inr (reg_two\<lparr>currentSelection := Some (- 1),
            resolutions := [r720, rauto],
            effects := effects reg_two @ [Fired (- 1), Trigger ''resolutions-changed'']\<rparr>)"
    by (simp add: select_def unchanged_def reg_two_def reg_auto0_def add_def Let_def
        trigger_def sort_resolutions_def js_sort_def getSelected_def compareFn_def js_gt_def r720_def
        rauto_def)
  from select_at_most_one_selected [OF d u r] d u r show ?thesis
    by simp
qed

text \<open>
  Claim C8, as stated, fails in its part on \<open>select\<close>: the guard compares with the
  stored current selection, which \<open>remove\<close> does not update. After a select for level 0
  in automatic mode the two levels and the automatic entry are added and level 0 is
  removed; a select for id 0, which matches no entry any more, returns at the guard and
  the automatic entry is still flagged.
\<close>

theorem select_absent_id_counterexample:
  "select \<lparr>opt_id = - 1, opt_autoResolutionChosenId = 0, fireCallback = False\<rparr> new_registry =
     Inr reg_auto0 \<and>
   reg_stale = remove_resolution 0 (add [r720, r1080, rauto] reg_auto0) \<and>
   map res_id (resolutions reg_stale) = [1, - 1] \<and>
   select \<lparr>opt_id = 0, opt_autoResolutionChosenId = 0, fireCallback = False\<rparr> reg_stale =
     Inr reg_stale \<and>
   map selected (resolutions reg_stale) = [False, True]"
  by (simp add: select_def unchanged_def new_registry_def reg_auto0_def reg_stale_def add_def
      remove_resolution_def Let_def trigger_def sort_resolutions_def js_sort_def getSelected_def
      compareFn_def js_gt_def r720_def r1080_def rauto_def)

text \<open>
  Claim C8, amended. \<open>remove\<close> with an id that matches no entry leaves the list as it
  is, and \<open>select\<close> with an id that matches no entry returns without an exception;
  unless it returns at the guard, every entry's \<open>selected\<close> flag is false afterwards.
\<close>

theorem absent_id_is_nothing_selected:
  "(i \<notin> set (map res_id (resolutions s)) \<longrightarrow>
      resolutions (remove_resolution i s) = resolutions s) \<and>
   (opt_id options \<notin> set (map res_id (resolutions s)) \<longrightarrow>
      (\<exists>s'. select options s = Inr s' \<and>
         (\<not> unchanged options s \<longrightarrow> list_all (\<lambda>r. \<not> selected r) (resolutions s'))))"
proof (intro conjI impI)
  assume "i \<notin> set (map res_id (resolutions s))"
  then have "filter (\<lambda>r. res_id r \<noteq> i) (resolutions s) = resolutions s"
    by (auto simp: filter_id_conv)
  then show "resolutions (remove_resolution i s) = resolutions s"
    by (simp add: remove_resolution_def trigger_def)
next
  assume "opt_id options \<notin> set (map res_id (resolutions s))"
  then have "opt_id options \<notin> res_id ` set (resolutions s)" by simp
  then have loop: "select_loop (opt_id options) fire (resolutions s) cur es =
      Inr (map (\<lambda>r. r\<lparr>selected := False\<rparr>) (resolutions s), cur, es)" for fire cur es
    by (rule select_loop_no_match)
  show "\<exists>s'. select options s = Inr s' \<and>
      (\<not> unchanged options s \<longrightarrow> list_all (\<lambda>r. \<not> selected r) (resolutions s'))"
    by (simp add: select_def Let_def loop trigger_def list_all_iff)
qed

theorem absent_id_is_nothing_selected_witness:
  "5 \<notin> set (map res_id (resolutions reg_two)) \<and>
   resolutions (remove_resolution 5 reg_two) = resolutions reg_two \<and>
   \<not> unchanged \<lparr>opt_id = 5, opt_autoResolutionChosenId = 0, fireCallback = True\<rparr> reg_two \<and>
   (\<exists>s'. select \<lparr>opt_id = 5, opt_autoResolutionChosenId = 0, fireCallback = True\<rparr> reg_two =
      Inr s' \<and> list_all (\<lambda>r. \<not> selected r) (resolutions s'))"
proof -
  have a: "5 \<notin> set (map res_id (resolutions reg_two))"
    by (simp add: reg_two_def reg_auto0_def add_def Let_def trigger_def sort_resolutions_def js_sort_def
        compareFn_def js_gt_def r720_def rauto_def)
  have u: "\<not> unchanged \<lparr>opt_id = 5, opt_autoResolutionChosenId = 0, fireCallback = True\<rparr>
      reg_two"
    by (simp add: unchanged_def reg_two_def reg_auto0_def add_def Let_def trigger_def
        sort_resolutions_def js_sort_def getSelected_def r720_def rauto_def)
  from a u
    absent_id_is_nothing_selected [of 5 reg_two
      "\<lparr>opt_id = 5, opt_autoResolutionChosenId = 0, fireCallback = True\<rparr>"]
  show ?thesis by simp
qed

section \<open>The error dispatcher\<close>

lemma count_error_eq:
  "count_error ty s = s\<lparr>errorCounts := (errorCounts s)(ty \<mapsto> Suc (occurrences s ty))\<rparr>"
  by (simp add: count_error_def occurrences_def split: option.splits)

lemma errorCounts_handleUnrecovarableError [simp]:
  "errorCounts (handleUnrecovarableError e s) = errorCounts s"
  by (simp add: handleUnrecovarableError_def removeQuality_def hls_removeLevel_def
      hls_called_def hls_destroy_def tech_trigger_def Let_def)

lemma errorCounts_handleMediaError [simp]:
  "errorCounts (handleMediaError e s) = errorCounts s"
  by (simp add: handleMediaError_def hls_recoverMediaError_def hls_swapAudioCodec_def
      hls_called_def)

lemma errorCounts_handleNetworkError [simp]:
  "errorCounts (handleNetworkError e s) = errorCounts s"
  by (simp add: handleNetworkError_def hls_once_FRAG_LOADED_def setTimeout_def)

lemma onError_network:
  "err_type d = NETWORK_ERROR \<Longrightarrow>
   onError d s =
     handleNetworkError \<lparr>message = error_message d, code = Some 2\<rparr>
       (s\<lparr>errorCounts := (errorCounts s)(NETWORK_ERROR \<mapsto> Suc (occurrences s NETWORK_ERROR))\<rparr>)"
  by (simp add: onError_def Let_def count_error_eq)

lemma onError_media:
  "err_type d = MEDIA_ERROR \<Longrightarrow> fatal d \<Longrightarrow>
   details d \<noteq> ''manifestIncompatibleCodecsError'' \<Longrightarrow>
   onError d s =
     handleMediaError \<lparr>message = error_message d, code = Some 3\<rparr>
       (s\<lparr>errorCounts := (errorCounts s)(MEDIA_ERROR \<mapsto> Suc (occurrences s MEDIA_ERROR))\<rparr>)"
  by (simp add: onError_def Let_def count_error_eq)

text \<open>
  Claim C10. An engine error event raises the counter of its classification by one (to 1
  when there was none) and leaves the other counters alone. A network error goes to the
  network policy, fatal or not; a media error goes to the media ladder when it is fatal
  and its detail code is not \<open>manifestIncompatibleCodecsError\<close>; every other fatal error
  goes to the unrecoverable path; a non-fatal error that is not a network error only
  counts.
\<close>

theorem onError_counts_and_routes:
  "(let counted =
      s\<lparr>errorCounts := (errorCounts s)(err_type d \<mapsto> occurrences s (err_type d) + 1)\<rparr>
    in
      errorCounts (onError d s) = errorCounts counted \<and>
      (errorCounts s (err_type d) = None \<longrightarrow> errorCounts (onError d s) (err_type d) = Some 1) \<and>
      (err_type d = NETWORK_ERROR \<longrightarrow>
         onError d s =
           handleNetworkError \<lparr>message = error_message d, code = Some 2\<rparr> counted) \<and>
      (err_type d = MEDIA_ERROR \<and> fatal d \<and>
       details d \<noteq> ''manifestIncompatibleCodecsError'' \<longrightarrow>
         onError d s =
           handleMediaError \<lparr>message = error_message d, code = Some 3\<rparr> counted) \<and>
      (err_type d \<noteq> NETWORK_ERROR \<and> fatal d \<and>
       (err_type d \<noteq> MEDIA_ERROR \<or> details d = ''manifestIncompatibleCodecsError'') \<longrightarrow>
         onError d s =
           handleUnrecovarableError \<lparr>message = error_message d, code = None\<rparr> counted) \<and>
      (err_type d \<noteq> NETWORK_ERROR \<and> \<not> fatal d \<longrightarrow> onError d s = counted))"
proof -
  define counted where "counted =
      s\<lparr>errorCounts := (errorCounts s)(err_type d \<mapsto> occurrences s (err_type d) + 1)\<rparr>"
  have routes: "onError d s =
     (if err_type d = NETWORK_ERROR
      then handleNetworkError \<lparr>message = error_message d, code = Some 2\<rparr> counted
      else if fatal d \<and> err_type d = MEDIA_ERROR \<and>
              details d \<noteq> ''manifestIncompatibleCodecsError''
      then handleMediaError \<lparr>message = error_message d, code = Some 3\<rparr> counted
      else if fatal d
      then handleUnrecovarableError \<lparr>message = error_message d, code = None\<rparr> counted
      else counted)"
    by (simp add: onError_def Let_def count_error_eq counted_def)
  have counts: "errorCounts (onError d s) = errorCounts counted"
    by (simp add: routes)
  have none: "errorCounts s (err_type d) = None \<longrightarrow>
      errorCounts (onError d s) (err_type d) = Some 1"
    by (simp add: counts counted_def occurrences_def)
  have net: "err_type d = NETWORK_ERROR \<longrightarrow>
      onError d s = handleNetworkError \<lparr>message = error_message d, code = Some 2\<rparr> counted"
    by (simp add: routes)
  have med: "err_type d = MEDIA_ERROR \<and> fatal d \<and>
      details d \<noteq> ''manifestIncompatibleCodecsError'' \<longrightarrow>
      onError d s = handleMediaError \<lparr>message = error_message d, code = Some 3\<rparr> counted"
    by (simp add: routes)
  have other: "err_type d \<noteq> NETWORK_ERROR \<and> fatal d \<and>
      (err_type d \<noteq> MEDIA_ERROR \<or> details d = ''manifestIncompatibleCodecsError'') \<longrightarrow>
      onError d s =
        handleUnrecovarableError \<lparr>message = error_message d, code = None\<rparr> counted"
    by (auto simp: routes)
  have quiet: "err_type d \<noteq> NETWORK_ERROR \<and> \<not> fatal d \<longrightarrow> onError d s = counted"
    by (simp add: routes)
  from counts none net med other quiet show ?thesis
    unfolding Let_def counted_def by blast
qed

theorem onError_counts_and_routes_witness:
  "errorCounts two_levels NETWORK_ERROR = None \<and>
   errorCounts (onError network_error two_levels) NETWORK_ERROR = Some 1 \<and>
   errorCounts (onError network_error two_levels) MEDIA_ERROR = None \<and>
   timers (onError network_error two_levels) = [(1000, RetryStartLoad)] \<and>
   calls (hls (onError media_error two_levels)) = [RecoverMediaError] \<and>
   calls (hls (onError incompatible_codecs two_levels)) = [RemoveLevel 0] \<and>
   onError stall_warning two_levels = two_levels\<lparr>errorCounts := [MEDIA_ERROR \<mapsto> 1]\<rparr>"
proof -
  have n: "err_type network_error = NETWORK_ERROR"
    and m: "err_type media_error = MEDIA_ERROR \<and> fatal media_error \<and>
      details media_error \<noteq> ''manifestIncompatibleCodecsError''"
    and i: "err_type incompatible_codecs \<noteq> NETWORK_ERROR \<and> fatal incompatible_codecs \<and>
      (err_type incompatible_codecs \<noteq> MEDIA_ERROR \<or>
       details incompatible_codecs = ''manifestIncompatibleCodecsError'')"
    and w: "err_type stall_warning \<noteq> NETWORK_ERROR \<and> \<not> fatal stall_warning"
    by (simp_all add: network_error_def media_error_def incompatible_codecs_def
        stall_warning_def)
  have fresh: "errorCounts two_levels = Map.empty"
    by (simp add: two_levels_def new_provider_def)
  from n fresh onError_counts_and_routes [of two_levels network_error]
  have "errorCounts (onError network_error two_levels) NETWORK_ERROR = Some 1"
    and "errorCounts (onError network_error two_levels) MEDIA_ERROR = None"
    and "timers (onError network_error two_levels) = [(1000, RetryStartLoad)]"
    by (simp_all add: Let_def occurrences_def handleNetworkError_def hls_once_FRAG_LOADED_def
        setTimeout_def two_levels_def new_provider_def)
  moreover from m fresh onError_counts_and_routes [of two_levels media_error]
  have "calls (hls (onError media_error two_levels)) = [RecoverMediaError]"
    by (simp add: Let_def occurrences_def handleMediaError_def hls_recoverMediaError_def
        hls_called_def two_levels_def new_provider_def)
  moreover from i fresh onError_counts_and_routes [of two_levels incompatible_codecs]
  have "calls (hls (onError incompatible_codecs two_levels)) = [RemoveLevel 0]"
    by (simp add: Let_def occurrences_def handleUnrecovarableError_def removeQuality_def
        hls_removeLevel_def hls_called_def two_levels_def new_provider_def)
  moreover from w fresh onError_counts_and_routes [of two_levels stall_warning]
  have "onError stall_warning two_levels = two_levels\<lparr>errorCounts := [MEDIA_ERROR \<mapsto> 1]\<rparr>"
    by (simp add: Let_def occurrences_def stall_warning_def)
  ultimately show ?thesis
    using fresh by simp
qed

section \<open>The unrecoverable path\<close>

text \<open>
  What the unrecoverable path does. When the engine holds more than one level with an id
  above -1, \<open>removeLevel\<close> is called with the index of the level being loaded,
  \<open>remove\<close> of the registry with the same number, which it compares with the ids of its
  entries, and \<open>currentLevel\<close> becomes -1; nothing reaches the tech. Otherwise the
  engine is destroyed, the error accessor of the tech returns the error with the message
  \<open>_getHumanErrorMsg\<close> gives for it (its own message), and \<open>error\<close> is triggered on the
  tech.
\<close>

lemma unrecoverable_branches:
  "(1 < length (filter (\<lambda>l. level_id l > - 1) (levels (hls s))) \<longrightarrow>
      handleUnrecovarableError e s =
        s\<lparr>hls := (hls s)
             \<lparr>levels := delete_at (loadLevel (hls s)) (levels (hls s)),
              loadLevel :=
                (if 0 \<le> loadLevel (hls s) \<and> nat (loadLevel (hls s)) < length (levels (hls s))
                 then - 1 else loadLevel (hls s)),
              calls := calls (hls s) @ [RemoveLevel (loadLevel (hls s))],
              currentLevel := - 1\<rparr>,
          podResolutions := (podResolutions s)
             \<lparr>resolutions :=
                filter (\<lambda>r. res_id r \<noteq> loadLevel (hls s)) (resolutions (podResolutions s)),
              effects := effects (podResolutions s) @ [Trigger ''resolutions-removed'']\<rparr>\<rparr>) \<and>
   (length (filter (\<lambda>l. level_id l > - 1) (levels (hls s))) \<le> 1 \<longrightarrow>
      handleUnrecovarableError e s =
        s\<lparr>hls := (hls s)\<lparr>destroyed := True, calls := calls (hls s) @ [Destroy]\<rparr>,
          tech_error := Some (e\<lparr>message := getHumanErrorMsg e\<rparr>),
          tech_events := tech_events s @ [''error'']\<rparr> \<and>
      getHumanErrorMsg e = message e)"
  by (simp add: handleUnrecovarableError_def removeQuality_def hls_removeLevel_def
      hls_called_def hls_destroy_def tech_trigger_def remove_resolution_def trigger_def
      getHumanErrorMsg_def Let_def)

text \<open>
  Claim C4. The claim holds for the first fallback of a session: with the three levels
  720p, 1080p, 480p and level 0 being loaded, a fatal error removes 720p from the engine
  and from the registry, puts \<open>currentLevel\<close> to -1 and raises nothing on the tech.
  The code misses the claim afterwards, while more than one level remains. The number it
  passes on is the engine's index of the loading level, and the registry compares it with
  ids that are the indices of the manifest. When the next fatal error comes before the
  engine loads a level, the index is -1: no level leaves the engine and the automatic
  entry leaves the registry, and since two levels remain a third error does no more and
  the tech never sees an error. When it comes after the engine has started to load index
  0, now 1080p, the engine drops 1080p and the registry, having no entry with id 0, keeps
  all of its entries, 1080p among them.
\<close>

theorem fallback_misses_loading_level:
  "map level_height (levels (hls three_levels)) = [720, 1080, 480] \<and>
   loadLevel (hls three_levels) = 0 \<and>
   resolutions (podResolutions three_levels) = [r1080, r720, r480, rauto] \<and>
   map level_height (levels (hls fallen_back)) = [1080, 480] \<and>
   resolutions (podResolutions fallen_back) = [r1080, r480, rauto] \<and>
   loadLevel (hls fallen_back) = - 1 \<and>
   tech_events fallen_back = [] \<and>
   map level_height (levels (hls fallen_back_again)) = [1080, 480] \<and>
   resolutions (podResolutions fallen_back_again) = [r1080, r480] \<and>
   calls (hls fallen_back_again) = [RemoveLevel 0, RemoveLevel (- 1)] \<and>
   onError fatal_other fallen_back_again =
     fallen_back_again
       \<lparr>errorCounts := (errorCounts fallen_back_again)(OTHER_ERROR \<mapsto> 3),
        hls := (hls fallen_back_again)
          \<lparr>calls := [RemoveLevel 0, RemoveLevel (- 1), RemoveLevel (- 1)]\<rparr>,
        podResolutions := (podResolutions fallen_back_again)
          \<lparr>effects := effects (podResolutions fallen_back_again) @
             [Trigger ''resolutions-removed'']\<rparr>\<rparr> \<and>
   tech_events fallen_back_again = [] \<and>
   destroyed (hls fallen_back_again) = False \<and>
   loadLevel (hls (engine_loads 0 fallen_back)) = 0 \<and>
   map level_height (levels (hls fallen_back_reloaded)) = [480] \<and>
   resolutions (podResolutions fallen_back_reloaded) = [r1080, r480, rauto] \<and>
   calls (hls fallen_back_reloaded) = [RemoveLevel 0, RemoveLevel 0]"
proof -
  have start: "map level_height (levels (hls three_levels)) = [720, 1080, 480]"
    "loadLevel (hls three_levels) = 0"
    "resolutions (podResolutions three_levels) = [r1080, r720, r480, rauto]"
    by (simp_all add: three_levels_def new_provider_def add_def Let_def trigger_def
        sort_resolutions_def js_sort_def compareFn_def js_gt_def new_registry_def r720_def
        r1080_def r480_def rauto_def)
  have first: "levels (hls fallen_back) =
      [\<lparr>level_id = 0, level_height = 1080\<rparr>, \<lparr>level_id = 0, level_height = 480\<rparr>]"
    "loadLevel (hls fallen_back) = - 1" "calls (hls fallen_back) = [RemoveLevel 0]"
    "resolutions (podResolutions fallen_back) = [r1080, r480, rauto]"
    "tech_events fallen_back = []" "destroyed (hls fallen_back) = False"
    "errorCounts fallen_back OTHER_ERROR = Some 1"
    by (simp_all add: fallen_back_def onError_def Let_def count_error_def
        handleUnrecovarableError_def removeQuality_def hls_removeLevel_def hls_called_def
        delete_at_def remove_resolution_def trigger_def fatal_other_def three_levels_def
        new_provider_def add_def sort_resolutions_def js_sort_def compareFn_def js_gt_def
        new_registry_def r720_def r1080_def r480_def rauto_def)
  have again: "levels (hls fallen_back_again) =
      [\<lparr>level_id = 0, level_height = 1080\<rparr>, \<lparr>level_id = 0, level_height = 480\<rparr>]"
    "loadLevel (hls fallen_back_again) = - 1"
    "calls (hls fallen_back_again) = [RemoveLevel 0, RemoveLevel (- 1)]"
    "resolutions (podResolutions fallen_back_again) = [r1080, r480]"
    "tech_events fallen_back_again = []" "destroyed (hls fallen_back_again) = False"
    "errorCounts fallen_back_again OTHER_ERROR = Some 2"
    "currentLevel (hls fallen_back_again) = - 1"
    by (simp_all add: fallen_back_again_def onError_def Let_def count_error_def first
        handleUnrecovarableError_def removeQuality_def hls_removeLevel_def hls_called_def
        delete_at_def remove_resolution_def trigger_def fatal_other_def r1080_def r480_def
        rauto_def)
  have third: "onError fatal_other fallen_back_again =
     fallen_back_again
       \<lparr>errorCounts := (errorCounts fallen_back_again)(OTHER_ERROR \<mapsto> 3),
        hls := (hls fallen_back_again)
          \<lparr>calls := [RemoveLevel 0, RemoveLevel (- 1), RemoveLevel (- 1)]\<rparr>,
        podResolutions := (podResolutions fallen_back_again)
          \<lparr>effects := effects (podResolutions fallen_back_again) @
             [Trigger ''resolutions-removed'']\<rparr>\<rparr>"
    by (simp add: onError_def Let_def count_error_def again handleUnrecovarableError_def
        removeQuality_def hls_removeLevel_def hls_called_def delete_at_def
        remove_resolution_def trigger_def fatal_other_def r1080_def r480_def)
  have reloaded: "loadLevel (hls (engine_loads 0 fallen_back)) = 0"
    "levels (hls fallen_back_reloaded) = [\<lparr>level_id = 0, level_height = 480\<rparr>]"
    "resolutions (podResolutions fallen_back_reloaded) = [r1080, r480, rauto]"
    "calls (hls fallen_back_reloaded) = [RemoveLevel 0, RemoveLevel 0]"
    by (simp_all add: fallen_back_reloaded_def engine_loads_def onError_def Let_def
        count_error_def first handleUnrecovarableError_def removeQuality_def
        hls_removeLevel_def hls_called_def delete_at_def remove_resolution_def trigger_def
        fatal_other_def r1080_def r480_def rauto_def)
  from start first again third reloaded show ?thesis
    by simp
qed

section \<open>The network policy\<close>

text \<open>
  Claim C9. While \<open>navigator.onLine\<close> is \<open>false\<close> the network handler returns at once:
  the state is what it was when the handler was entered. Through the dispatcher the
  event has been counted, and nothing else has happened: no timer, no listener, no engine
  call, no change of the registry, no error on the tech.
\<close>

theorem offline_network_error_is_silent:
  "onLine s = False \<Longrightarrow>
   handleNetworkError e s = s \<and>
   (err_type d = NETWORK_ERROR \<longrightarrow>
      onError d s =
        s\<lparr>errorCounts :=
            (errorCounts s)(NETWORK_ERROR \<mapsto> occurrences s NETWORK_ERROR + 1)\<rparr>)"
  by (simp add: onError_network handleNetworkError_def)

theorem offline_network_error_is_silent_witness:
  "onLine offline = False \<and>
   handleNetworkError \<lparr>message = ''m'', code = Some 2\<rparr> offline = offline \<and>
   err_type network_error = NETWORK_ERROR \<and>
   onError network_error offline = offline\<lparr>errorCounts := [NETWORK_ERROR \<mapsto> 1]\<rparr> \<and>
   timers (onError network_error offline) = [] \<and>
   calls (hls (onError network_error offline)) = [] \<and>
   tech_events (onError network_error offline) = []"
proof -
  have off: "onLine offline = False"
    by (simp add: offline_def)
  have n: "err_type network_error = NETWORK_ERROR"
    by (simp add: network_error_def)
  have fresh: "errorCounts offline = Map.empty" "timers offline = []"
    "calls (hls offline) = []" "tech_events offline = []"
    by (simp_all add: offline_def two_levels_def new_provider_def)
  from offline_network_error_is_silent [OF off, of "\<lparr>message = ''m'', code = Some 2\<rparr>"
      network_error] n fresh off
  show ?thesis
    by (simp add: occurrences_def)
qed

lemma timers_handleUnrecovarableError [simp]:
  "timers (handleUnrecovarableError e s) = timers s"
  by (simp add: handleUnrecovarableError_def removeQuality_def hls_removeLevel_def
      hls_called_def hls_destroy_def tech_trigger_def Let_def)

lemma fragLoadedOnce_handleUnrecovarableError [simp]:
  "fragLoadedOnce (hls (handleUnrecovarableError e s)) = fragLoadedOnce (hls s)"
  by (simp add: handleUnrecovarableError_def removeQuality_def hls_removeLevel_def
      hls_called_def hls_destroy_def tech_trigger_def Let_def)

lemma network_retry_step:
  "onLine s \<Longrightarrow> err_type d = NETWORK_ERROR \<Longrightarrow>
   occurrences s NETWORK_ERROR + 1 \<le> maxNetworkErrorRecovery s \<Longrightarrow>
   onError d s =
     s\<lparr>errorCounts := (errorCounts s)(NETWORK_ERROR \<mapsto> occurrences s NETWORK_ERROR + 1),
       timers := timers s @ [(1000, RetryStartLoad)],
       hls := (hls s)\<lparr>fragLoadedOnce := fragLoadedOnce (hls s) @ [ResetNetworkErrorCount]\<rparr>\<rparr>"
  by (simp add: onError_network handleNetworkError_def hls_once_FRAG_LOADED_def setTimeout_def)

lemma network_exceeded_step:
  "onLine s \<Longrightarrow> err_type d = NETWORK_ERROR \<Longrightarrow>
   maxNetworkErrorRecovery s < occurrences s NETWORK_ERROR + 1 \<Longrightarrow>
   onError d s =
     handleUnrecovarableError \<lparr>message = error_message d, code = Some 2\<rparr>
       (s\<lparr>errorCounts := (errorCounts s)(NETWORK_ERROR \<mapsto> occurrences s NETWORK_ERROR + 1)\<rparr>)"
  by (simp add: onError_network handleNetworkError_def)

lemma calls_run_callbacks:
  "calls (hls (foldl run_callback s cs)) =
   calls (hls s) @ map (\<lambda>c. StartLoad) (filter (\<lambda>c. c = RetryStartLoad) cs)"
proof (induction cs arbitrary: s)
  case Nil
  then show ?case by simp
next
  case (Cons c cs)
  show ?case
    by (cases c) (simp_all add: Cons.IH hls_startLoad_def hls_called_def)
qed

lemma calls_elapse:
  "calls (hls (elapse t s)) =
   calls (hls s) @
   map (\<lambda>c. StartLoad)
     (filter (\<lambda>c. c = RetryStartLoad) (map snd (filter (\<lambda>(r, c). r \<le> t) (timers s))))"
  by (simp add: elapse_def calls_run_callbacks)

lemma reset_runs:
  "ResetNetworkErrorCount \<in> set cs \<Longrightarrow>
   errorCounts (foldl run_callback s cs) NETWORK_ERROR = Some 0"
proof (induction cs rule: rev_induct)
  case Nil
  then show ?case by simp
next
  case (snoc c cs)
  show ?case
  proof (cases c)
    case RetryStartLoad
    with snoc.prems have "ResetNetworkErrorCount \<in> set cs" by simp
    with RetryStartLoad show ?thesis
      by (simp add: snoc.IH hls_startLoad_def hls_called_def)
  next
    case ResetNetworkErrorCount
    then show ?thesis by simp
  qed
qed

lemma errors_snoc: "errors (ds @ [d]) s = onError d (errors ds s)"
  by (simp add: errors_def)

lemma network_retries:
  "onLine s \<Longrightarrow> list_all (\<lambda>x. err_type x = NETWORK_ERROR) ds \<Longrightarrow>
   occurrences s NETWORK_ERROR + length ds \<le> maxNetworkErrorRecovery s \<Longrightarrow>
   occurrences (errors ds s) NETWORK_ERROR = occurrences s NETWORK_ERROR + length ds \<and>
   timers (errors ds s) = timers s @ replicate (length ds) (1000, RetryStartLoad) \<and>
   onLine (errors ds s) \<and>
   maxNetworkErrorRecovery (errors ds s) = maxNetworkErrorRecovery s \<and>
   hls (errors ds s) =
     (hls s)\<lparr>fragLoadedOnce :=
        fragLoadedOnce (hls s) @ replicate (length ds) ResetNetworkErrorCount\<rparr> \<and>
   podResolutions (errors ds s) = podResolutions s \<and>
   tech_error (errors ds s) = tech_error s \<and>
   tech_events (errors ds s) = tech_events s"
proof (induction ds rule: rev_induct)
  case Nil
  then show ?case by (simp add: errors_def)
next
  case (snoc d ds)
  let ?s = "errors ds s"
  from snoc have IH:
    "occurrences ?s NETWORK_ERROR = occurrences s NETWORK_ERROR + length ds"
    "timers ?s = timers s @ replicate (length ds) (1000, RetryStartLoad)"
    "onLine ?s" "maxNetworkErrorRecovery ?s = maxNetworkErrorRecovery s"
    "hls ?s = (hls s)\<lparr>fragLoadedOnce :=
        fragLoadedOnce (hls s) @ replicate (length ds) ResetNetworkErrorCount\<rparr>"
    "podResolutions ?s = podResolutions s" "tech_error ?s = tech_error s"
    "tech_events ?s = tech_events s"
    by simp_all
  from snoc.prems have d: "err_type d = NETWORK_ERROR" by simp
  from snoc.prems IH have
    "occurrences ?s NETWORK_ERROR + 1 \<le> maxNetworkErrorRecovery ?s"
    by simp
  with IH(3) d have step: "onError d ?s =
     ?s\<lparr>errorCounts := (errorCounts ?s)(NETWORK_ERROR \<mapsto> occurrences ?s NETWORK_ERROR + 1),
        timers := timers ?s @ [(1000, RetryStartLoad)],
        hls := (hls ?s)\<lparr>fragLoadedOnce := fragLoadedOnce (hls ?s) @ [ResetNetworkErrorCount]\<rparr>\<rparr>"
    by (rule network_retry_step)
  show ?case
    unfolding errors_snoc step using IH
    by (simp add: occurrences_def replicate_append_same)
qed

text \<open>
  Claim C3, as stated, fails: the offline guard stands before the retry. With the browser
  offline, the first network error of a session (count 1, ceiling 5) schedules no retry
  and registers no reset of the counter.
\<close>

theorem network_retry_offline_counterexample:
  "err_type network_error = NETWORK_ERROR \<and>
   occurrences (onError network_error offline) NETWORK_ERROR = 1 \<and>
   maxNetworkErrorRecovery (onError network_error offline) = 5 \<and>
   timers (onError network_error offline) = [] \<and>
   fragLoadedOnce (hls (onError network_error offline)) = []"
  by (simp add: onError_network handleNetworkError_def occurrences_def network_error_def
      offline_def two_levels_def new_provider_def)

text \<open>
  Claim C3, amended. While \<open>navigator.onLine\<close> is not \<open>false\<close>: a network error whose
  count is at most the ceiling sets a timer of 1000 ms whose callback calls \<open>startLoad\<close>
  (the call is made when 1000 ms have passed, not before) and registers a listener that
  puts the network counter to 0 at the next fragment-loaded event; a network error whose
  count exceeds the ceiling enters the unrecoverable path and schedules nothing. The
  ceiling is 5 in a new handler and 30 from the first level-loaded event that reports a
  live stream. So after as many network errors in a row as the ceiling allows, each of
  which scheduled its retry, the next one enters the unrecoverable path.
\<close>

theorem network_retry_policy:
  "(onLine s \<and> err_type d = NETWORK_ERROR \<longrightarrow>
      (let counted =
         s\<lparr>errorCounts := (errorCounts s)(NETWORK_ERROR \<mapsto> occurrences s NETWORK_ERROR + 1)\<rparr>
       in
         (occurrences s NETWORK_ERROR + 1 \<le> maxNetworkErrorRecovery s \<longrightarrow>
            onError d s =
              counted\<lparr>timers := timers s @ [(1000, RetryStartLoad)],
                hls := (hls s)
                  \<lparr>fragLoadedOnce := fragLoadedOnce (hls s) @ [ResetNetworkErrorCount]\<rparr>\<rparr> \<and>
            (\<forall>t. calls (hls (elapse t (onError d s))) =
               calls (hls (elapse t s)) @ (if 1000 \<le> t then [StartLoad] else [])) \<and>
            errorCounts (onFragLoaded (onError d s)) NETWORK_ERROR = Some 0) \<and>
         (maxNetworkErrorRecovery s < occurrences s NETWORK_ERROR + 1 \<longrightarrow>
            onError d s =
              handleUnrecovarableError \<lparr>message = error_message d, code = Some 2\<rparr> counted \<and>
            timers (onError d s) = timers s \<and>
            fragLoadedOnce (hls (onError d s)) = fragLoadedOnce (hls s)))) \<and>
   maxNetworkErrorRecovery (new_provider ls ll reg online) = 5 \<and>
   maxNetworkErrorRecovery (onLevelLoaded True s) = 30 \<and>
   maxNetworkErrorRecovery (onLevelLoaded False s) = maxNetworkErrorRecovery s \<and>
   (\<forall>ds. onLine s \<and> occurrences s NETWORK_ERROR = 0 \<and>
      list_all (\<lambda>x. err_type x = NETWORK_ERROR) ds \<and> err_type d = NETWORK_ERROR \<and>
      length ds = maxNetworkErrorRecovery s \<longrightarrow>
      timers (errors ds s) = timers s @ replicate (length ds) (1000, RetryStartLoad) \<and>
      hls (errors ds s) =
        (hls s)\<lparr>fragLoadedOnce :=
           fragLoadedOnce (hls s) @ replicate (length ds) ResetNetworkErrorCount\<rparr> \<and>
      podResolutions (errors ds s) = podResolutions s \<and>
      tech_error (errors ds s) = tech_error s \<and>
      tech_events (errors ds s) = tech_events s \<and>
      errors (ds @ [d]) s =
        handleUnrecovarableError \<lparr>message = error_message d, code = Some 2\<rparr>
          ((errors ds s)\<lparr>errorCounts :=
              (errorCounts (errors ds s))(NETWORK_ERROR \<mapsto> length ds + 1)\<rparr>) \<and>
      timers (errors (ds @ [d]) s) = timers (errors ds s))"
proof (intro conjI allI impI)
  assume a: "onLine s \<and> err_type d = NETWORK_ERROR"
  show "let counted =
         s\<lparr>errorCounts := (errorCounts s)(NETWORK_ERROR \<mapsto> occurrences s NETWORK_ERROR + 1)\<rparr>
       in
         (occurrences s NETWORK_ERROR + 1 \<le> maxNetworkErrorRecovery s \<longrightarrow>
            onError d s =
              counted\<lparr>timers := timers s @ [(1000, RetryStartLoad)],
                hls := (hls s)
                  \<lparr>fragLoadedOnce := fragLoadedOnce (hls s) @ [ResetNetworkErrorCount]\<rparr>\<rparr> \<and>
            (\<forall>t. calls (hls (elapse t (onError d s))) =
               calls (hls (elapse t s)) @ (if 1000 \<le> t then [StartLoad] else [])) \<and>
            errorCounts (onFragLoaded (onError d s)) NETWORK_ERROR = Some 0) \<and>
         (maxNetworkErrorRecovery s < occurrences s NETWORK_ERROR + 1 \<longrightarrow>
            onError d s =
              handleUnrecovarableError \<lparr>message = error_message d, code = Some 2\<rparr> counted \<and>
            timers (onError d s) = timers s \<and>
            fragLoadedOnce (hls (onError d s)) = fragLoadedOnce (hls s))"
    unfolding Let_def
  proof (intro conjI allI impI)
    assume le: "occurrences s NETWORK_ERROR + 1 \<le> maxNetworkErrorRecovery s"
    with a have step: "onError d s =
       s\<lparr>errorCounts := (errorCounts s)(NETWORK_ERROR \<mapsto> occurrences s NETWORK_ERROR + 1),
         timers := timers s @ [(1000, RetryStartLoad)],
         hls := (hls s)\<lparr>fragLoadedOnce := fragLoadedOnce (hls s) @ [ResetNetworkErrorCount]\<rparr>\<rparr>"
      by (simp add: network_retry_step)
    then show "onError d s =
       s\<lparr>errorCounts := (errorCounts s)(NETWORK_ERROR \<mapsto> occurrences s NETWORK_ERROR + 1),
         timers := timers s @ [(1000, RetryStartLoad)],
         hls := (hls s)\<lparr>fragLoadedOnce := fragLoadedOnce (hls s) @ [ResetNetworkErrorCount]\<rparr>\<rparr>" .
    show "calls (hls (elapse t (onError d s))) =
        calls (hls (elapse t s)) @ (if 1000 \<le> t then [StartLoad] else [])" for t
      by (simp add: calls_elapse step)
    show "errorCounts (onFragLoaded (onError d s)) NETWORK_ERROR = Some 0"
      by (simp add: onFragLoaded_def step reset_runs)
  next
    assume gt: "maxNetworkErrorRecovery s < occurrences s NETWORK_ERROR + 1"
    with a have step: "onError d s =
       handleUnrecovarableError \<lparr>message = error_message d, code = Some 2\<rparr>
         (s\<lparr>errorCounts := (errorCounts s)(NETWORK_ERROR \<mapsto> occurrences s NETWORK_ERROR + 1)\<rparr>)"
      by (simp add: network_exceeded_step)
    then show "onError d s =
       handleUnrecovarableError \<lparr>message = error_message d, code = Some 2\<rparr>
         (s\<lparr>errorCounts := (errorCounts s)(NETWORK_ERROR \<mapsto> occurrences s NETWORK_ERROR + 1)\<rparr>)" .
    show "timers (onError d s) = timers s"
      by (simp add: step)
    show "fragLoadedOnce (hls (onError d s)) = fragLoadedOnce (hls s)"
      by (simp add: step)
  qed
next
  show "maxNetworkErrorRecovery (new_provider ls ll reg online) = 5"
    by (simp add: new_provider_def)
next
  show "maxNetworkErrorRecovery (onLevelLoaded True s) = 30"
    by (simp add: onLevelLoaded_def)
next
  show "maxNetworkErrorRecovery (onLevelLoaded False s) = maxNetworkErrorRecovery s"
    by (simp add: onLevelLoaded_def)
next
  fix ds :: "error_data list"
  assume a: "onLine s \<and> occurrences s NETWORK_ERROR = 0 \<and>
      list_all (\<lambda>x. err_type x = NETWORK_ERROR) ds \<and> err_type d = NETWORK_ERROR \<and>
      length ds = maxNetworkErrorRecovery s"
  then have r: "occurrences (errors ds s) NETWORK_ERROR = occurrences s NETWORK_ERROR + length ds \<and>
     timers (errors ds s) = timers s @ replicate (length ds) (1000, RetryStartLoad) \<and>
     onLine (errors ds s) \<and>
     maxNetworkErrorRecovery (errors ds s) = maxNetworkErrorRecovery s \<and>
     hls (errors ds s) =
       (hls s)\<lparr>fragLoadedOnce :=
          fragLoadedOnce (hls s) @ replicate (length ds) ResetNetworkErrorCount\<rparr> \<and>
     podResolutions (errors ds s) = podResolutions s \<and>
     tech_error (errors ds s) = tech_error s \<and>
     tech_events (errors ds s) = tech_events s"
    by (intro network_retries) simp_all
  then show "timers (errors ds s) = timers s @ replicate (length ds) (1000, RetryStartLoad)"
    and "hls (errors ds s) =
       (hls s)\<lparr>fragLoadedOnce :=
          fragLoadedOnce (hls s) @ replicate (length ds) ResetNetworkErrorCount\<rparr>"
    and "podResolutions (errors ds s) = podResolutions s"
    and "tech_error (errors ds s) = tech_error s"
    and "tech_events (errors ds s) = tech_events s"
    by simp_all
  from a r have "maxNetworkErrorRecovery (errors ds s) <
      occurrences (errors ds s) NETWORK_ERROR + 1"
    by simp
  with a r have "onError d (errors ds s) =
     handleUnrecovarableError \<lparr>message = error_message d, code = Some 2\<rparr>
       ((errors ds s)\<lparr>errorCounts := (errorCounts (errors ds s))
          (NETWORK_ERROR \<mapsto> occurrences (errors ds s) NETWORK_ERROR + 1)\<rparr>)"
    by (simp add: network_exceeded_step)
  with a r show last: "errors (ds @ [d]) s =
        handleUnrecovarableError \<lparr>message = error_message d, code = Some 2\<rparr>
          ((errors ds s)\<lparr>errorCounts :=
              (errorCounts (errors ds s))(NETWORK_ERROR \<mapsto> length ds + 1)\<rparr>)"
    by (simp add: errors_snoc)
  show "timers (errors (ds @ [d]) s) = timers (errors ds s)"
    by (simp add: last)
qed

theorem network_retry_policy_witness:
  "onLine two_levels \<and> err_type network_error = NETWORK_ERROR \<and>
   occurrences two_levels NETWORK_ERROR = 0 \<and> maxNetworkErrorRecovery two_levels = 5 \<and>
   timers (onError network_error two_levels) = [(1000, RetryStartLoad)] \<and>
   calls (hls (elapse 999 (onError network_error two_levels))) = [] \<and>
   calls (hls (elapse 1000 (onError network_error two_levels))) = [StartLoad] \<and>
   errorCounts (onFragLoaded (onError network_error two_levels)) NETWORK_ERROR = Some 0 \<and>
   timers (onError network_error (two_levels\<lparr>errorCounts := [NETWORK_ERROR \<mapsto> 5]\<rparr>)) = [] \<and>
   timers (errors [network_error, network_error, network_error, network_error, network_error]
     two_levels) =
     [(1000, RetryStartLoad), (1000, RetryStartLoad), (1000, RetryStartLoad),
      (1000, RetryStartLoad), (1000, RetryStartLoad)] \<and>
   timers (errors ([network_error, network_error, network_error, network_error, network_error]
     @ [network_error]) two_levels) =
     [(1000, RetryStartLoad), (1000, RetryStartLoad), (1000, RetryStartLoad),
      (1000, RetryStartLoad), (1000, RetryStartLoad)] \<and>
   calls (hls (errors ([network_error, network_error, network_error, network_error,
     network_error] @ [network_error]) two_levels)) = [RemoveLevel 0]"
proof -
  let ?five = "[network_error, network_error, network_error, network_error, network_error]"
  let ?spent = "two_levels\<lparr>errorCounts := [NETWORK_ERROR \<mapsto> 5]\<rparr>"
  have n: "err_type network_error = NETWORK_ERROR"
    by (simp add: network_error_def)
  have fresh: "onLine two_levels" "occurrences two_levels NETWORK_ERROR = 0"
    "maxNetworkErrorRecovery two_levels = 5" "timers two_levels = []"
    "calls (hls two_levels) = []" "loadLevel (hls two_levels) = 0"
    "levels (hls two_levels) =
      [\<lparr>level_id = 0, level_height = 720\<rparr>, \<lparr>level_id = 0, level_height = 1080\<rparr>]"
    by (simp_all add: two_levels_def new_provider_def occurrences_def)
  have spent: "onLine ?spent" "occurrences ?spent NETWORK_ERROR = 5"
    "maxNetworkErrorRecovery ?spent = 5" "timers ?spent = []"
    by (simp_all add: two_levels_def new_provider_def occurrences_def)
  note first = network_retry_policy [of two_levels network_error, THEN conjunct1,
      unfolded Let_def]
  note sixth = network_retry_policy [of ?spent network_error, THEN conjunct1,
      unfolded Let_def]
  note row = network_retry_policy [of two_levels network_error, THEN conjunct2,
      THEN conjunct2, THEN conjunct2, THEN conjunct2, rule_format, of ?five]
  have le: "occurrences two_levels NETWORK_ERROR + 1 \<le> maxNetworkErrorRecovery two_levels"
    using fresh by simp
  from first n fresh(1) le have retry: "onError network_error two_levels =
      two_levels\<lparr>errorCounts :=
          (errorCounts two_levels)(NETWORK_ERROR \<mapsto> occurrences two_levels NETWORK_ERROR + 1),
        timers := timers two_levels @ [(1000, RetryStartLoad)],
        hls := (hls two_levels)
          \<lparr>fragLoadedOnce := fragLoadedOnce (hls two_levels) @ [ResetNetworkErrorCount]\<rparr>\<rparr>"
    and b: "\<forall>t. calls (hls (elapse t (onError network_error two_levels))) =
      calls (hls (elapse t two_levels)) @ (if 1000 \<le> t then [StartLoad] else [])"
    and c: "errorCounts (onFragLoaded (onError network_error two_levels)) NETWORK_ERROR =
      Some 0"
    by blast+
  from retry fresh have a: "timers (onError network_error two_levels) =
      [(1000, RetryStartLoad)]"
    by simp
  from b have "calls (hls (elapse 999 (onError network_error two_levels))) =
      calls (hls (elapse 999 two_levels)) @ (if (1000::nat) \<le> 999 then [StartLoad] else [])"
    and "calls (hls (elapse 1000 (onError network_error two_levels))) =
      calls (hls (elapse 1000 two_levels)) @ (if (1000::nat) \<le> 1000 then [StartLoad] else [])"
    by blast+
  with fresh have b1: "calls (hls (elapse 999 (onError network_error two_levels))) = []"
    and b2: "calls (hls (elapse 1000 (onError network_error two_levels))) = [StartLoad]"
    by (simp_all add: calls_elapse)
  have gt: "maxNetworkErrorRecovery ?spent < occurrences ?spent NETWORK_ERROR + 1"
    using spent by simp
  from sixth n spent(1) gt have "timers (onError network_error ?spent) = timers ?spent"
    by blast
  with spent have d: "timers (onError network_error ?spent) = []"
    by simp
  have pre: "onLine two_levels \<and> occurrences two_levels NETWORK_ERROR = 0 \<and>
      list_all (\<lambda>x. err_type x = NETWORK_ERROR) ?five \<and>
      err_type network_error = NETWORK_ERROR \<and>
      length ?five = maxNetworkErrorRecovery two_levels"
    using n fresh by simp
  from row [OF pre] have e0: "timers (errors ?five two_levels) =
      timers two_levels @ replicate (length ?five) (1000, RetryStartLoad)"
    and f0: "timers (errors (?five @ [network_error]) two_levels) =
      timers (errors ?five two_levels)"
    and g: "errors (?five @ [network_error]) two_levels =
      handleUnrecovarableError \<lparr>message = error_message network_error, code = Some 2\<rparr>
        ((errors ?five two_levels)\<lparr>errorCounts :=
            (errorCounts (errors ?five two_levels))(NETWORK_ERROR \<mapsto> length ?five + 1)\<rparr>)"
    and h: "hls (errors ?five two_levels) =
      (hls two_levels)\<lparr>fragLoadedOnce :=
         fragLoadedOnce (hls two_levels) @ replicate (length ?five) ResetNetworkErrorCount\<rparr>"
    by blast+
  from e0 fresh have e: "timers (errors ?five two_levels) =
     [(1000, RetryStartLoad), (1000, RetryStartLoad), (1000, RetryStartLoad),
      (1000, RetryStartLoad), (1000, RetryStartLoad)]"
    by simp
  with f0 have f: "timers (errors (?five @ [network_error]) two_levels) =
     [(1000, RetryStartLoad), (1000, RetryStartLoad), (1000, RetryStartLoad),
      (1000, RetryStartLoad), (1000, RetryStartLoad)]"
    by simp
  from h fresh have "calls (hls (errors (?five @ [network_error]) two_levels)) =
      [RemoveLevel 0]"
    unfolding g
    by (simp add: handleUnrecovarableError_def removeQuality_def hls_removeLevel_def
        hls_called_def)
  with a b1 b2 c d e f n fresh show ?thesis
    by simp
qed

section \<open>The media ladder\<close>

lemma media_first:
  "media_ladder_event d \<Longrightarrow> occurrences s MEDIA_ERROR = 0 \<Longrightarrow>
   onError d s =
     s\<lparr>errorCounts := (errorCounts s)(MEDIA_ERROR \<mapsto> 1),
       hls := (hls s)\<lparr>calls := calls (hls s) @ [RecoverMediaError]\<rparr>\<rparr>"
  by (simp add: media_ladder_event_def onError_media handleMediaError_def
      hls_recoverMediaError_def hls_called_def)

lemma media_second:
  "media_ladder_event d \<Longrightarrow> occurrences s MEDIA_ERROR = 1 \<Longrightarrow>
   onError d s =
     s\<lparr>errorCounts := (errorCounts s)(MEDIA_ERROR \<mapsto> 2),
       hls := (hls s)\<lparr>calls := calls (hls s) @ [SwapAudioCodec, RecoverMediaError]\<rparr>\<rparr>"
  by (simp add: media_ladder_event_def onError_media handleMediaError_def
      hls_recoverMediaError_def hls_swapAudioCodec_def hls_called_def numeral_2_eq_2)

lemma media_later:
  "media_ladder_event d \<Longrightarrow> 2 \<le> occurrences s MEDIA_ERROR \<Longrightarrow>
   onError d s =
     handleUnrecovarableError \<lparr>message = error_message d, code = Some 3\<rparr>
       (s\<lparr>errorCounts := (errorCounts s)(MEDIA_ERROR \<mapsto> occurrences s MEDIA_ERROR + 1)\<rparr>)"
  by (simp add: media_ladder_event_def onError_media handleMediaError_def)

lemma give_up:
  "length (filter (\<lambda>l. level_id l > - 1) (levels (hls s))) \<le> 1 \<Longrightarrow>
   handleUnrecovarableError e s =
     s\<lparr>hls := (hls s)\<lparr>destroyed := True, calls := calls (hls s) @ [Destroy]\<rparr>,
       tech_error := Some e, tech_events := tech_events s @ [''error'']\<rparr>"
  by (simp add: handleUnrecovarableError_def hls_destroy_def hls_called_def tech_trigger_def
      getHumanErrorMsg_def Let_def)

text \<open>
  Claim C2, as stated, fails: a fatal media error with the detail code
  \<open>manifestIncompatibleCodecsError\<close> does not enter the ladder. With a single quality
  level, the first such event of a session already destroys the engine and triggers
  \<open>error\<close> on the tech; media-error recovery is never called.
\<close>

theorem media_ladder_incompatible_codecs_counterexample:
  "err_type incompatible_codecs = MEDIA_ERROR \<and> fatal incompatible_codecs \<and>
   length (levels (hls one_level)) = 1 \<and>
   occurrences (onError incompatible_codecs one_level) MEDIA_ERROR = 1 \<and>
   calls (hls (onError incompatible_codecs one_level)) = [Destroy] \<and>
   tech_events (onError incompatible_codecs one_level) = [''error'']"
  by (simp add: onError_def Let_def count_error_def handleUnrecovarableError_def
      hls_destroy_def hls_called_def tech_trigger_def occurrences_def incompatible_codecs_def
      one_level_def new_provider_def)

text \<open>
  Claim C2, amended. For fatal media errors whose detail code is not
  \<open>manifestIncompatibleCodecsError\<close>, the policy acts on the running media-error count:
  at count 1 it calls the engine's media-error recovery, at count 2 it swaps the audio
  codec and then calls media-error recovery, from count 3 on it takes the unrecoverable
  path. So three such events in a row, in a session without earlier media errors and with
  at most one quality level, leave the engine alive and the tech without error after the
  first and the second, and destroy the engine and trigger \<open>error\<close> on the tech at the
  third.
\<close>

theorem media_ladder:
  "(media_ladder_event d \<longrightarrow>
      (occurrences s MEDIA_ERROR + 1 = 1 \<longrightarrow>
         onError d s =
           s\<lparr>errorCounts := (errorCounts s)(MEDIA_ERROR \<mapsto> 1),
             hls := (hls s)\<lparr>calls := calls (hls s) @ [RecoverMediaError]\<rparr>\<rparr>) \<and>
      (occurrences s MEDIA_ERROR + 1 = 2 \<longrightarrow>
         onError d s =
           s\<lparr>errorCounts := (errorCounts s)(MEDIA_ERROR \<mapsto> 2),
             hls := (hls s)\<lparr>calls := calls (hls s) @ [SwapAudioCodec, RecoverMediaError]\<rparr>\<rparr>) \<and>
      (3 \<le> occurrences s MEDIA_ERROR + 1 \<longrightarrow>
         onError d s =
           handleUnrecovarableError \<lparr>message = error_message d, code = Some 3\<rparr>
             (s\<lparr>errorCounts :=
                 (errorCounts s)(MEDIA_ERROR \<mapsto> occurrences s MEDIA_ERROR + 1)\<rparr>))) \<and>
   (\<forall>d1 d2 d3.
      media_ladder_event d1 \<and> media_ladder_event d2 \<and> media_ladder_event d3 \<and>
      occurrences s MEDIA_ERROR = 0 \<and>
      length (filter (\<lambda>l. level_id l > - 1) (levels (hls s))) \<le> 1 \<longrightarrow>
      errors [d1] s =
        s\<lparr>errorCounts := (errorCounts s)(MEDIA_ERROR \<mapsto> 1),
          hls := (hls s)\<lparr>calls := calls (hls s) @ [RecoverMediaError]\<rparr>\<rparr> \<and>
      errors [d1, d2] s =
        s\<lparr>errorCounts := (errorCounts s)(MEDIA_ERROR \<mapsto> 2),
          hls := (hls s)
            \<lparr>calls := calls (hls s) @ [RecoverMediaError, SwapAudioCodec, RecoverMediaError]\<rparr>\<rparr> \<and>
      errors [d1, d2, d3] s =
        s\<lparr>errorCounts := (errorCounts s)(MEDIA_ERROR \<mapsto> 3),
          hls := (hls s)
            \<lparr>destroyed := True,
             calls := calls (hls s) @
               [RecoverMediaError, SwapAudioCodec, RecoverMediaError, Destroy]\<rparr>,
          tech_error := Some \<lparr>message = error_message d3, code = Some 3\<rparr>,
          tech_events := tech_events s @ [''error'']\<rparr>)"
proof (intro conjI allI impI)
  assume "media_ladder_event d" and "occurrences s MEDIA_ERROR + 1 = 1"
  then show "onError d s =
      s\<lparr>errorCounts := (errorCounts s)(MEDIA_ERROR \<mapsto> 1),
        hls := (hls s)\<lparr>calls := calls (hls s) @ [RecoverMediaError]\<rparr>\<rparr>"
    by (simp add: media_first)
next
  assume "media_ladder_event d" and "occurrences s MEDIA_ERROR + 1 = 2"
  then show "onError d s =
      s\<lparr>errorCounts := (errorCounts s)(MEDIA_ERROR \<mapsto> 2),
        hls := (hls s)\<lparr>calls := calls (hls s) @ [SwapAudioCodec, RecoverMediaError]\<rparr>\<rparr>"
    by (simp add: media_second)
next
  assume "media_ladder_event d" and "3 \<le> occurrences s MEDIA_ERROR + 1"
  then show "onError d s =
      handleUnrecovarableError \<lparr>message = error_message d, code = Some 3\<rparr>
        (s\<lparr>errorCounts := (errorCounts s)(MEDIA_ERROR \<mapsto> occurrences s MEDIA_ERROR + 1)\<rparr>)"
    by (simp add: media_later)
next
  fix d1 d2 d3
  assume a: "media_ladder_event d1 \<and> media_ladder_event d2 \<and> media_ladder_event d3 \<and>
      occurrences s MEDIA_ERROR = 0 \<and>
      length (filter (\<lambda>l. level_id l > - 1) (levels (hls s))) \<le> 1"
  let ?s1 = "s\<lparr>errorCounts := (errorCounts s)(MEDIA_ERROR \<mapsto> 1),
          hls := (hls s)\<lparr>calls := calls (hls s) @ [RecoverMediaError]\<rparr>\<rparr>"
  let ?s2 = "s\<lparr>errorCounts := (errorCounts s)(MEDIA_ERROR \<mapsto> 2),
          hls := (hls s)
            \<lparr>calls := calls (hls s) @ [RecoverMediaError, SwapAudioCodec, RecoverMediaError]\<rparr>\<rparr>"
  from a have one: "onError d1 s = ?s1"
    by (simp add: media_first)
  have "occurrences ?s1 MEDIA_ERROR = 1"
    by (simp add: occurrences_def)
  with a have "onError d2 ?s1 = ?s2"
    by (simp add: media_second)
  with one have two: "onError d2 (onError d1 s) = ?s2"
    by simp
  have "2 \<le> occurrences ?s2 MEDIA_ERROR"
    by (simp add: occurrences_def)
  with a have "onError d3 ?s2 =
      handleUnrecovarableError \<lparr>message = error_message d3, code = Some 3\<rparr>
        (?s2\<lparr>errorCounts := (errorCounts ?s2)(MEDIA_ERROR \<mapsto> occurrences ?s2 MEDIA_ERROR + 1)\<rparr>)"
    by (simp add: media_later)
  with a two have three: "onError d3 (onError d2 (onError d1 s)) =
      s\<lparr>errorCounts := (errorCounts s)(MEDIA_ERROR \<mapsto> 3),
        hls := (hls s)
          \<lparr>destroyed := True,
           calls := calls (hls s) @
             [RecoverMediaError, SwapAudioCodec, RecoverMediaError, Destroy]\<rparr>,
        tech_error := Some \<lparr>message = error_message d3, code = Some 3\<rparr>,
        tech_events := tech_events s @ [''error'']\<rparr>"
    by (simp add: give_up occurrences_def)
  from one show "errors [d1] s = ?s1"
    by (simp add: errors_def)
  from two show "errors [d1, d2] s = ?s2"
    by (simp add: errors_def)
  from three show "errors [d1, d2, d3] s =
      s\<lparr>errorCounts := (errorCounts s)(MEDIA_ERROR \<mapsto> 3),
        hls := (hls s)
          \<lparr>destroyed := True,
           calls := calls (hls s) @
             [RecoverMediaError, SwapAudioCodec, RecoverMediaError, Destroy]\<rparr>,
        tech_error := Some \<lparr>message = error_message d3, code = Some 3\<rparr>,
        tech_events := tech_events s @ [''error'']\<rparr>"
    by (simp add: errors_def)
qed

theorem media_ladder_witness:
  "media_ladder_event media_error \<and> occurrences one_level MEDIA_ERROR = 0 \<and>
   length (filter (\<lambda>l. level_id l > - 1) (levels (hls one_level))) \<le> 1 \<and>
   calls (hls (onError media_error one_level)) = [RecoverMediaError] \<and>
   calls (hls (onError media_error (one_level\<lparr>errorCounts := [MEDIA_ERROR \<mapsto> 1]\<rparr>))) =
     [SwapAudioCodec, RecoverMediaError] \<and>
   calls (hls (onError media_error (one_level\<lparr>errorCounts := [MEDIA_ERROR \<mapsto> 2]\<rparr>))) =
     [Destroy] \<and>
   destroyed (hls (errors [media_error] one_level)) = False \<and>
   tech_events (errors [media_error] one_level) = [] \<and>
   destroyed (hls (errors [media_error, media_error] one_level)) = False \<and>
   tech_events (errors [media_error, media_error] one_level) = [] \<and>
   destroyed (hls (errors [media_error, media_error, media_error] one_level)) = True \<and>
   calls (hls (errors [media_error, media_error, media_error] one_level)) =
     [RecoverMediaError, SwapAudioCodec, RecoverMediaError, Destroy] \<and>
   tech_error (errors [media_error, media_error, media_error] one_level) =
     Some \<lparr>message = ''HLS.js error: mediaError - fatal: true - bufferStalledError'',
           code = Some 3\<rparr> \<and>
   tech_events (errors [media_error, media_error, media_error] one_level) = [''error'']"
proof -
  let ?once = "one_level\<lparr>errorCounts := [MEDIA_ERROR \<mapsto> 1]\<rparr>"
  let ?twice = "one_level\<lparr>errorCounts := [MEDIA_ERROR \<mapsto> 2]\<rparr>"
  have m: "media_ladder_event media_error"
    by (simp add: media_ladder_event_def media_error_def)
  have msg: "error_message media_error =
      ''HLS.js error: mediaError - fatal: true - bufferStalledError''"
    by (simp add: error_message_def media_error_def)
  have fresh: "occurrences one_level MEDIA_ERROR = 0"
    "length (filter (\<lambda>l. level_id l > - 1) (levels (hls one_level))) \<le> 1"
    "calls (hls one_level) = []" "tech_events one_level = []" "destroyed (hls one_level) = False"
    by (simp_all add: one_level_def new_provider_def occurrences_def)
  have counted: "occurrences ?once MEDIA_ERROR + 1 = 2" "3 \<le> occurrences ?twice MEDIA_ERROR + 1"
    "length (filter (\<lambda>l. level_id l > - 1) (levels (hls ?twice))) \<le> 1"
    "calls (hls ?once) = []" "calls (hls ?twice) = []"
    by (simp_all add: one_level_def new_provider_def occurrences_def)
  from media_ladder [of media_error one_level] m fresh(1)
  have "onError media_error one_level =
      one_level\<lparr>errorCounts := (errorCounts one_level)(MEDIA_ERROR \<mapsto> 1),
        hls := (hls one_level)\<lparr>calls := calls (hls one_level) @ [RecoverMediaError]\<rparr>\<rparr>"
    by simp
  with fresh have r1: "calls (hls (onError media_error one_level)) = [RecoverMediaError]"
    by simp
  from media_ladder [of media_error ?once] m counted(1)
  have "onError media_error ?once =
      ?once\<lparr>errorCounts := (errorCounts ?once)(MEDIA_ERROR \<mapsto> 2),
        hls := (hls ?once)\<lparr>calls := calls (hls ?once) @ [SwapAudioCodec, RecoverMediaError]\<rparr>\<rparr>"
    by blast
  with counted have r2: "calls (hls (onError media_error ?once)) =
      [SwapAudioCodec, RecoverMediaError]"
    by simp
  from media_ladder [of media_error ?twice] m counted(2)
  have "onError media_error ?twice =
      handleUnrecovarableError \<lparr>message = error_message media_error, code = Some 3\<rparr>
        (?twice\<lparr>errorCounts :=
            (errorCounts ?twice)(MEDIA_ERROR \<mapsto> occurrences ?twice MEDIA_ERROR + 1)\<rparr>)"
    by blast
  with counted have r3: "calls (hls (onError media_error ?twice)) = [Destroy]"
    by (simp add: give_up)
  have pre: "media_ladder_event media_error \<and> media_ladder_event media_error \<and>
      media_ladder_event media_error \<and> occurrences one_level MEDIA_ERROR = 0 \<and>
      length (filter (\<lambda>l. level_id l > - 1) (levels (hls one_level))) \<le> 1"
    using m fresh by simp
  note row = media_ladder [of media_error one_level, THEN conjunct2, rule_format,
      of media_error media_error media_error, OF pre]
  from row have e1: "errors [media_error] one_level =
      one_level\<lparr>errorCounts := (errorCounts one_level)(MEDIA_ERROR \<mapsto> 1),
        hls := (hls one_level)\<lparr>calls := calls (hls one_level) @ [RecoverMediaError]\<rparr>\<rparr>"
    and e2: "errors [media_error, media_error] one_level =
      one_level\<lparr>errorCounts := (errorCounts one_level)(MEDIA_ERROR \<mapsto> 2),
        hls := (hls one_level)
          \<lparr>calls := calls (hls one_level) @
             [RecoverMediaError, SwapAudioCodec, RecoverMediaError]\<rparr>\<rparr>"
    and e3: "errors [media_error, media_error, media_error] one_level =
      one_level\<lparr>errorCounts := (errorCounts one_level)(MEDIA_ERROR \<mapsto> 3),
        hls := (hls one_level)
          \<lparr>destroyed := True,
           calls := calls (hls one_level) @
             [RecoverMediaError, SwapAudioCodec, RecoverMediaError, Destroy]\<rparr>,
        tech_error := Some \<lparr>message = error_message media_error, code = Some 3\<rparr>,
        tech_events := tech_events one_level @ [''error'']\<rparr>"
    by blast+
  from fresh msg m r1 r2 r3 show ?thesis
    unfolding e1 e2 e3 by simp
qed

section \<open>Disposal\<close>

text \<open>
  Claim C5, as stated, fails: \<open>dispose\<close> does not touch the timer, whose handle the
  handler never kept. A network error schedules the retry; 999 ms later the handler is
  disposed, the timer still pending with 1 ms to go; after that millisecond the retry
  callback runs and calls \<open>startLoad\<close> on the destroyed engine.
\<close>

theorem dispose_pending_retry_counterexample:
  "timers retry_pending = [(1000, RetryStartLoad)] \<and>
   timers (dispose (elapse 999 retry_pending)) = [(1, RetryStartLoad)] \<and>
   calls (hls (dispose (elapse 999 retry_pending))) = [Destroy] \<and>
   calls (hls (elapse 1 (dispose (elapse 999 retry_pending)))) = [Destroy, StartLoad]"
  by (simp add: retry_pending_def onError_network handleNetworkError_def
      hls_once_FRAG_LOADED_def setTimeout_def occurrences_def network_error_def
      two_levels_def new_provider_def elapse_def dispose_def hls_destroy_def hls_called_def
      hls_startLoad_def)

text \<open>
  Claim C5, amended. \<open>dispose\<close> removes the handler's \<open>play\<close> and \<open>error\<close> listeners from
  the video element and destroys the engine instance; it leaves the pending timers as
  they are, so every retry whose delay has passed still runs its callback after the
  disposal: the engine's calls after the disposal and \<open>t\<close> more milliseconds are those
  before it, \<open>destroy\<close>, and one \<open>startLoad\<close> for each retry that was due within \<open>t\<close>.
\<close>

theorem dispose_leaves_timers:
  "timers (dispose s) = timers s \<and>
   destroyed (hls (dispose s)) \<and>
   ''play'' \<notin> set (videoListeners (dispose s)) \<and>
   ''error'' \<notin> set (videoListeners (dispose s)) \<and>
   calls (hls (elapse t (dispose s))) =
     calls (hls s) @ Destroy #
     map (\<lambda>c. StartLoad)
       (filter (\<lambda>c. c = RetryStartLoad) (map snd (filter (\<lambda>(r, c). r \<le> t) (timers s))))"
  by (simp add: calls_elapse dispose_def hls_destroy_def hls_called_def)

end
